theory Spec2Isabelle
  imports Complex_Main
begin

section \<open>Strings\<close>

text \<open>
  Go strings are modelled as \<^typ>\<open>string\<close> (a list of 8-bit characters), read as ASCII
  text: \<open>len\<close> is \<^const>\<open>length\<close>, the case and class functions of package
  \<open>unicode\<close> are written out for the ASCII range, and a byte above 0x7F is a
  character with no case that is neither white space nor punctuation.
  \<open>float64\<close> is modelled as \<^typ>\<open>real\<close>: rounding is not modelled.
\<close>

definition upperLetters :: string where
  "upperLetters = ''ABCDEFGHIJKLMNOPQRSTUVWXYZ''"

definition lowerLetters :: string where
  "lowerLetters = ''abcdefghijklmnopqrstuvwxyz''"

definition digitChars :: string where
  "digitChars = ''0123456789''"

definition quoteChar :: char where
  "quoteChar = CHR 0x22"

text \<open>\<open>unicode.ToLower\<close> and \<open>unicode.ToUpper\<close> on one character.\<close>

definition toLowerChar :: "char \<Rightarrow> char" where
  "toLowerChar c = (case map_of (zip upperLetters lowerLetters) c of Some l \<Rightarrow> l | None \<Rightarrow> c)"

definition toUpperChar :: "char \<Rightarrow> char" where
  "toUpperChar c = (case map_of (zip lowerLetters upperLetters) c of Some u \<Rightarrow> u | None \<Rightarrow> c)"

text \<open>\<open>unicode.IsSpace\<close>: tab, line feed, vertical tab, form feed, carriage return, space.\<close>

definition isSpace :: "char \<Rightarrow> bool" where
  "isSpace c = (c \<in> set [CHR 0x09, CHR 0x0A, CHR 0x0B, CHR 0x0C, CHR 0x0D, CHR 0x20])"

text \<open>\<open>unicode.IsPunct\<close>: the ASCII characters of the Unicode categories P*.\<close>

definition isPunct :: "char \<Rightarrow> bool" where
  "isPunct c = (c \<in> set [CHR 0x21, CHR 0x22, CHR 0x23, CHR 0x25, CHR 0x26, CHR 0x27, CHR 0x28,
     CHR 0x29, CHR 0x2A, CHR 0x2C, CHR 0x2D, CHR 0x2E, CHR 0x2F, CHR 0x3A, CHR 0x3B, CHR 0x3F,
     CHR 0x40, CHR 0x5B, CHR 0x5C, CHR 0x5D, CHR 0x5F, CHR 0x7B, CHR 0x7D])"

text \<open>
  \<open>unicode.IsUpper(rune(b))\<close> for a byte \<open>b\<close>: the byte is read as a code point, so the
  upper-case letters of Latin-1 (0xC0 to 0xDE without 0xD7) count too.
\<close>

definition isUpper :: "char \<Rightarrow> bool" where
  "isUpper c = (c \<in> set upperLetters \<or>
     (let n = (of_char c :: nat) in 192 \<le> n \<and> n \<le> 222 \<and> n \<noteq> 215))"

definition ToLower :: "string \<Rightarrow> string" where
  "ToLower s = map toLowerChar s"

fun HasPrefix :: "string \<Rightarrow> string \<Rightarrow> bool" where
  "HasPrefix s [] = True"
| "HasPrefix [] (p # ps) = False"
| "HasPrefix (c # cs) (p # ps) = (c = p \<and> HasPrefix cs ps)"

text \<open>\<open>strings.Contains(s, substr)\<close>.\<close>

fun Contains :: "string \<Rightarrow> string \<Rightarrow> bool" where
  "Contains [] sub = (sub = [])"
| "Contains (c # cs) sub = (HasPrefix (c # cs) sub \<or> Contains cs sub)"

text \<open>\<open>strings.ContainsAny(s, chars)\<close>.\<close>

definition ContainsAny :: "string \<Rightarrow> string \<Rightarrow> bool" where
  "ContainsAny s chars = list_ex (\<lambda>c. c \<in> set chars) s"

text \<open>
  \<open>strings.Fields(s)\<close>: the maximal runs of characters that are not white space.
  \<open>fieldsFrom cur s\<close> scans \<open>s\<close> with \<open>cur\<close> the field read so far.
\<close>

fun fieldsFrom :: "string \<Rightarrow> string \<Rightarrow> string list" where
  "fieldsFrom cur [] = (if cur = [] then [] else [cur])"
| "fieldsFrom cur (c # cs) =
     (if isSpace c then (if cur = [] then fieldsFrom [] cs else cur # fieldsFrom [] cs)
      else fieldsFrom (cur @ [c]) cs)"

definition Fields :: "string \<Rightarrow> string list" where
  "Fields s = fieldsFrom [] s"

text \<open>\<open>strings.Join(elems, sep)\<close>.\<close>

fun Join :: "string list \<Rightarrow> string \<Rightarrow> string" where
  "Join [] sep = []"
| "Join [w] sep = w"
| "Join (w # v # ws) sep = w @ sep @ Join (v # ws) sep"

text \<open>\<open>strings.Trim(s, cutset)\<close>.\<close>

definition Trim :: "string \<Rightarrow> string \<Rightarrow> string" where
  "Trim s cutset =
     rev (dropWhile (\<lambda>c. c \<in> set cutset) (rev (dropWhile (\<lambda>c. c \<in> set cutset) s)))"

section \<open>Regular expressions\<close>

text \<open>
  A compiled \<open>*regexp.Regexp\<close> is used through two methods only: \<open>MatchString\<close> and
  \<open>FindStringSubmatch\<close> (the empty list is Go's \<open>nil\<close>: no match; otherwise the match
  followed by one string per capturing group, empty for a group that took no part).
\<close>

record Regexp =
  MatchString :: "string \<Rightarrow> bool"
  FindStringSubmatch :: "string \<Rightarrow> string list"

text \<open>
  The patterns the program itself contains are given as syntax trees and run by a
  backtracking matcher with the leftmost-first preference of package \<open>regexp\<close>:
  \<open>rmatch r (s, caps)\<close> lists, best first, the ways \<open>r\<close> matches a prefix of \<open>s\<close>, each as
  the rest of the text and the groups captured so far (latest first).
\<close>

datatype rx =
    RChar "char \<Rightarrow> bool"
  | RSeq rx rx
  | RAlt rx rx
  | ROpt rx
  | RStar rx
  | RGroup nat rx

type_synonym mstate = "string \<times> (nat \<times> string) list"

fun starIter :: "nat \<Rightarrow> (mstate \<Rightarrow> mstate list) \<Rightarrow> mstate \<Rightarrow> mstate list" where
  "starIter 0 f st = [st]"
| "starIter (Suc n) f st =
     concat (map (\<lambda>st'. if length (fst st') < length (fst st) then starIter n f st' else [])
                 (f st)) @ [st]"

primrec rmatch :: "rx \<Rightarrow> mstate \<Rightarrow> mstate list" where
  "rmatch (RChar p) st = (case fst st of [] \<Rightarrow> [] | c # cs \<Rightarrow> if p c then [(cs, snd st)] else [])"
| "rmatch (RSeq a b) st = concat (map (rmatch b) (rmatch a st))"
| "rmatch (RAlt a b) st = rmatch a st @ rmatch b st"
| "rmatch (ROpt a) st = rmatch a st @ [st]"
| "rmatch (RStar a) st = starIter (length (fst st)) (rmatch a) st"
| "rmatch (RGroup i a) st =
     map (\<lambda>st'. (fst st', (i, take (length (fst st) - length (fst st')) (fst st)) # snd st'))
         (rmatch a st)"

text \<open>The leftmost match: the best match at the first position that has one.\<close>

fun rfind :: "rx \<Rightarrow> string \<Rightarrow> (string \<times> (nat \<times> string) list) option" where
  "rfind r [] = (case rmatch r ([], []) of [] \<Rightarrow> None | st # _ \<Rightarrow> Some ([], snd st))"
| "rfind r (c # cs) =
     (case rmatch r (c # cs, []) of
        [] \<Rightarrow> rfind r cs
      | st # _ \<Rightarrow> Some (take (length (c # cs) - length (fst st)) (c # cs), snd st))"

text \<open>\<open>regexpOf n r\<close>: the compiled form of a pattern \<open>r\<close> with \<open>n\<close> capturing groups.\<close>

definition submatches :: "nat \<Rightarrow> string \<times> (nat \<times> string) list \<Rightarrow> string list" where
  "submatches n m =
     fst m # map (\<lambda>i. case map_of (snd m) i of Some g \<Rightarrow> g | None \<Rightarrow> []) [1..<Suc n]"

definition regexpOf :: "nat \<Rightarrow> rx \<Rightarrow> Regexp" where
  "regexpOf n r =
     \<lparr> MatchString = (\<lambda>s. rfind r s \<noteq> None),
       FindStringSubmatch = (\<lambda>s. case rfind r s of None \<Rightarrow> [] | Some m \<Rightarrow> submatches n m) \<rparr>"

definition RPlus :: "rx \<Rightarrow> rx" where
  "RPlus a = RSeq a (RStar a)"

text \<open>A character class under the flag \<open>(?i)\<close>.\<close>

definition foldCase :: "(char \<Rightarrow> bool) \<Rightarrow> char \<Rightarrow> bool" where
  "foldCase p c = (p c \<or> p (toLowerChar c) \<or> p (toUpperChar c))"

fun RLit :: "string \<Rightarrow> rx" where
  "RLit [] = ROpt (RChar (\<lambda>c. False))"
| "RLit [c] = RChar (foldCase (\<lambda>d. d = c))"
| "RLit (c # cs) = RSeq (RChar (foldCase (\<lambda>d. d = c))) (RLit cs)"

text \<open>
  \<open>regexp.MustCompile(`"([^"]+)"`)\<close> of \<open>extractEntityByKeywords\<close>: a double quote, a
  non-empty run without double quote (group 1), a double quote.
\<close>

definition quotePattern :: Regexp where
  "quotePattern = regexpOf 1
     (RSeq (RChar (\<lambda>c. c = quoteChar))
       (RSeq (RGroup 1 (RPlus (RChar (\<lambda>c. c \<noteq> quoteChar)))) (RChar (\<lambda>c. c = quoteChar))))"

section \<open>Data model (internal/models)\<close>

text \<open>
  A Go map is an association list with distinct keys: a \<open>range\<close> loop visits the
  entries in the order of the list (Go leaves the order of iteration open), and a
  look-up is \<^const>\<open>map_of\<close>, with the zero value of the element type for a missing key.
  Where two structs of the source have a field of the same name, the fields of the
  second carry a prefix: \<open>EntityType\<close>, \<open>EntityRegex\<close>, ... for \<open>EntityPattern\<close>,
  \<open>IntentConfidence\<close> and \<open>IntentFollowUp\<close> for \<open>models.Intent\<close>, \<open>ResultIntent\<close> and
  \<open>ResultConfidence\<close> for \<open>IntentResult\<close>.
\<close>

record IntentPattern =
  Description :: string
  Keywords :: "string list"
  Phrases :: "string list"
  Regex :: "string list"
  Priority :: int
  Variables :: "string list"
  Required :: "string list"
  Examples :: "string list"
  FollowUp :: "string list"

record EntityPattern =
  EntityType :: string
  EntityDescription :: string
  EntityRegex :: "string list"
  EntityKeywords :: "string list"
  EntityExamples :: "string list"

record IntentConfig =
  Domain :: string
  Version :: string
  Intents :: "(string \<times> IntentPattern) list"
  Entities :: "(string \<times> EntityPattern) list"
  Synonyms :: "(string \<times> string list) list"
  Confidence :: "(string \<times> real) list"

text \<open>The values of \<open>map[string]interface{}\<close> that the program stores.\<close>

datatype Value = StringValue string | FloatValue real

record Intent =
  Task :: string
  Vars :: "string \<rightharpoonup> Value"
  IntentConfidence :: real
  Missing :: "string list"
  IntentFollowUp :: "string list"
  IsComplete :: bool

section \<open>The provider (internal/services/enhanced\_local\_provider.go)\<close>

record CompiledConfig =
  IntentRegexes :: "(string \<times> Regexp list) list"
  EntityRegexes :: "(string \<times> Regexp list) list"
  KeywordMap :: "(string \<times> string list) list"
  PhraseMap :: "(string \<times> string list) list"
  SynonymMap :: "(string \<times> string) list"

record EnhancedLocalProvider =
  config :: IntentConfig
  compiled :: CompiledConfig
  configPath :: string

text \<open>\<open>m[k]\<close> for a map of slices: \<open>nil\<close> for a missing key.\<close>

definition lookupList :: "(string \<times> 'a list) list \<Rightarrow> string \<Rightarrow> 'a list" where
  "lookupList m k = (case map_of m k of Some v \<Rightarrow> v | None \<Rightarrow> [])"

subsection \<open>Normalisation and tokens\<close>

definition normalizeText :: "string \<Rightarrow> string" where
  "normalizeText text =
     (let normalized = ToLower text;
          normalized = Join (Fields normalized) '' '';
          normalized = map (\<lambda>r. if isPunct r \<and> r \<noteq> CHR ''@'' \<and> r \<noteq> CHR ''.'' \<and> r \<noteq> CHR ''_''
                                    \<and> r \<noteq> CHR ''-'' then CHR '' '' else r) normalized;
          normalized = Join (Fields normalized) '' ''
      in normalized)"

definition stopWords :: "string list" where
  "stopWords =
     [''the'', ''a'', ''an'', ''and'', ''or'', ''but'',
      ''in'', ''on'', ''at'', ''to'', ''for'', ''of'',
      ''with'', ''by'', ''from'', ''up'', ''about'',
      ''into'', ''through'', ''during'', ''before'', ''after'',
      ''above'', ''below'', ''between'', ''among'',
      ''is'', ''are'', ''was'', ''were'', ''be'', ''been'',
      ''have'', ''has'', ''had'', ''do'', ''does'', ''did'',
      ''will'', ''would'', ''could'', ''should'', ''may'', ''might'']"

definition isStopWord :: "string \<Rightarrow> bool" where
  "isStopWord word = (word \<in> set stopWords)"

definition tokenize :: "string \<Rightarrow> string list" where
  "tokenize text = filter (\<lambda>word. \<not> isStopWord word) (Fields (ToLower text))"

definition getSynonyms :: "EnhancedLocalProvider \<Rightarrow> string \<Rightarrow> string list" where
  "getSynonyms p word = (case map_of (Synonyms (config p)) word of Some synonyms \<Rightarrow> synonyms | None \<Rightarrow> [])"

definition getIntentWords :: "IntentPattern \<Rightarrow> string list" where
  "getIntentWords intent =
     Keywords intent @ concat (map (\<lambda>phrase. Fields (ToLower phrase)) (Phrases intent))"

definition calculateWordOverlap :: "string list \<Rightarrow> string list \<Rightarrow> real" where
  "calculateWordOverlap textWords intentWords =
     (if length intentWords = 0 then 0
      else real (length (filter (\<lambda>word. word \<in> set textWords) intentWords))
             / real (length intentWords))"

subsection \<open>Scoring\<close>

text \<open>The four loops of \<open>calculateIntentScore\<close>; each returns what it adds.\<close>

fun regexSignal :: "Regexp list \<Rightarrow> string \<Rightarrow> real" where
  "regexSignal [] text = 0"
| "regexSignal (re # res) text = (if MatchString re text then 0.8 else regexSignal res text)"

fun phraseSignal :: "string list \<Rightarrow> string \<Rightarrow> real" where
  "phraseSignal [] textLower = 0"
| "phraseSignal (phrase # phrases) textLower =
     (if Contains textLower (ToLower phrase) then 0.6 else phraseSignal phrases textLower)"

fun synonymLoop :: "string list \<Rightarrow> string \<Rightarrow> real" where
  "synonymLoop [] textLower = 0"
| "synonymLoop (synonym # synonyms) textLower =
     (if Contains textLower (ToLower synonym) then 0.3 else synonymLoop synonyms textLower)"

text \<open>
  The keyword loop, with \<open>keywordScore\<close> as accumulator (the counter \<open>matchedKeywords\<close>
  of the source is written and never read).
\<close>

fun keywordLoop :: "EnhancedLocalProvider \<Rightarrow> string list \<Rightarrow> string \<Rightarrow> real \<Rightarrow> real" where
  "keywordLoop p [] textLower keywordScore = keywordScore"
| "keywordLoop p (keyword # keywords) textLower keywordScore =
     (if Contains textLower (ToLower keyword)
      then keywordLoop p keywords textLower (keywordScore + 0.4)
      else keywordLoop p keywords textLower
             (keywordScore + synonymLoop (getSynonyms p keyword) textLower))"

definition keywordSignal :: "EnhancedLocalProvider \<Rightarrow> string \<Rightarrow> string \<Rightarrow> real" where
  "keywordSignal p textLower intentName =
     (let keywords = lookupList (KeywordMap (compiled p)) intentName;
          keywordScore = keywordLoop p keywords textLower 0
      in if length keywords > 0 then keywordScore / real (length keywords) else keywordScore)"

definition lengthBonus :: "string \<Rightarrow> real" where
  "lengthBonus text = (if length text > 20 then 0.1 else 0)"

definition calculateIntentScore ::
  "EnhancedLocalProvider \<Rightarrow> string \<Rightarrow> string \<Rightarrow> IntentPattern \<Rightarrow> real" where
  "calculateIntentScore p text intentName intent =
     (let score = 0;
          score = score + regexSignal (lookupList (IntentRegexes (compiled p)) intentName) text;
          textLower = ToLower text;
          score = score + phraseSignal (lookupList (PhraseMap (compiled p)) intentName) textLower;
          score = score + keywordSignal p textLower intentName;
          overlap = calculateWordOverlap (tokenize text) (getIntentWords intent);
          score = score + overlap * 0.2;
          score = score + lengthBonus text
      in score)"

subsection \<open>Classification\<close>

record IntentResult =
  ResultIntent :: string
  ResultConfidence :: real

text \<open>The score of one intent after the priority boost.\<close>

definition boostedScore ::
  "EnhancedLocalProvider \<Rightarrow> string \<Rightarrow> string \<Rightarrow> IntentPattern \<Rightarrow> real" where
  "boostedScore p text intentName intent =
     calculateIntentScore p text intentName intent + real_of_int (Priority intent) * 0.1"

text \<open>The loop of \<open>classifyIntent\<close> over the intents, with \<open>(bestIntent, bestScore)\<close>.\<close>

fun classifyLoop ::
  "EnhancedLocalProvider \<Rightarrow> string \<Rightarrow> (string \<times> IntentPattern) list \<Rightarrow> string \<times> real
     \<Rightarrow> string \<times> real" where
  "classifyLoop p text [] best = best"
| "classifyLoop p text ((intentName, intent) # rest) (bestIntent, bestScore) =
     (let score = boostedScore p text intentName intent
      in if score > bestScore then classifyLoop p text rest (intentName, score)
         else classifyLoop p text rest (bestIntent, bestScore))"

definition thresholdOf :: "EnhancedLocalProvider \<Rightarrow> string \<Rightarrow> real" where
  "thresholdOf p bestIntent =
     (let threshold = (case map_of (Confidence (config p)) bestIntent of Some t \<Rightarrow> t | None \<Rightarrow> 0)
      in if threshold = 0 then 0.5 else threshold)"

definition classifyIntent :: "EnhancedLocalProvider \<Rightarrow> string \<Rightarrow> IntentResult" where
  "classifyIntent p text =
     (let (bestIntent, bestScore) = classifyLoop p text (Intents (config p)) (''UNKNOWN'', 0);
          threshold = thresholdOf p bestIntent;
          (bestIntent, bestScore) =
             (if bestScore < threshold then (''UNKNOWN'', 0) else (bestIntent, bestScore))
      in \<lparr> ResultIntent = bestIntent, ResultConfidence = min bestScore 1 \<rparr>)"

subsection \<open>Entity extraction\<close>

definition trimSet :: string where
  "trimSet = ''.,!?;:''"

text \<open>
  The loops of \<open>extractEntityByKeywords\<close>, one per case of the switch. Each runs over
  the words from position \<open>i\<close> on: \<open>word\<close> is \<open>words[i]\<close> and \<open>rest\<close> starts at
  \<open>words[i+1]\<close>; the result \<open>[]\<close> is the final \<open>return ""\<close>.
\<close>

fun nameLoop :: "string list \<Rightarrow> string" where
  "nameLoop [] = []"
| "nameLoop (word # rest) =
     (let wordLower = ToLower word
      in if wordLower = ''named'' \<or> wordLower = ''name'' \<or> wordLower = ''contact''
            \<or> wordLower = ''person''
         then (case rest of
                 [] \<Rightarrow> nameLoop rest
               | w1 # rest2 \<Rightarrow>
                   (let nextWord = Trim w1 trimSet
                    in if (case nextWord of [] \<Rightarrow> False
                           | c # _ \<Rightarrow> isUpper c \<and> \<not> isStopWord (ToLower nextWord))
                       then (if (case rest2 of [] \<Rightarrow> False | w2 # _ \<Rightarrow> ToLower w2 = ''with'')
                             then nextWord
                             else if (case rest2 of [] \<Rightarrow> False
                                      | w2 # _ \<Rightarrow>
                                          (let nextNextWord = ToLower w2
                                           in nextNextWord = ''with'' \<or> nextNextWord = ''email''
                                              \<or> nextNextWord = ''phone''))
                             then nextWord
                             else nextWord)
                       else nameLoop rest))
         else nameLoop rest)"

fun emailLoop :: "string list \<Rightarrow> string" where
  "emailLoop [] = []"
| "emailLoop (word # rest) =
     (let wordLower = ToLower word
      in if wordLower = ''email'' \<or> wordLower = ''e-mail'' \<or> wordLower = ''mail''
         then (case rest of
                 [] \<Rightarrow> emailLoop rest
               | w1 # _ \<Rightarrow>
                   (let nextWord = Trim w1 trimSet
                    in if Contains nextWord ''@'' \<and> Contains nextWord ''.'' then nextWord
                       else emailLoop rest))
         else emailLoop rest)"

fun phoneLoop :: "string list \<Rightarrow> string" where
  "phoneLoop [] = []"
| "phoneLoop (word # rest) =
     (let wordLower = ToLower word
      in if wordLower = ''phone'' \<or> wordLower = ''mobile'' \<or> wordLower = ''cell''
         then (case rest of
                 [] \<Rightarrow> phoneLoop rest
               | w1 # _ \<Rightarrow>
                   (let nextWord = Trim w1 trimSet
                    in if ContainsAny nextWord digitChars
                          \<and> (Contains nextWord ''-'' \<or> Contains nextWord ''(''
                               \<or> length nextWord \<ge> 10)
                       then nextWord
                       else phoneLoop rest))
         else phoneLoop rest)"

fun dateLoop :: "string list \<Rightarrow> string" where
  "dateLoop [] = []"
| "dateLoop (word # rest) =
     (let wordLower = ToLower (Trim word trimSet)
      in if wordLower = ''today'' \<or> wordLower = ''tomorrow'' \<or> wordLower = ''yesterday''
         then wordLower
         else dateLoop rest)"

fun timeLoop :: "string list \<Rightarrow> string" where
  "timeLoop [] = []"
| "timeLoop (word # rest) =
     (let wordLower = ToLower word
      in if wordLower = ''at''
         then (case rest of
                 [] \<Rightarrow> timeLoop rest
               | w1 # _ \<Rightarrow>
                   (let nextWord = Trim w1 trimSet
                    in if ContainsAny nextWord digitChars
                          \<and> (Contains nextWord '':'' \<or> Contains (ToLower nextWord) ''am''
                               \<or> Contains (ToLower nextWord) ''pm'')
                       then nextWord
                       else timeLoop rest))
         else timeLoop rest)"

fun locationLoop :: "string list \<Rightarrow> string" where
  "locationLoop [] = []"
| "locationLoop (word # rest) =
     (let wordLower = ToLower word
      in if wordLower = ''in'' \<or> wordLower = ''at''
         then (case rest of
                 [] \<Rightarrow> locationLoop rest
               | w1 # _ \<Rightarrow>
                   (let nextWord = Trim w1 trimSet
                    in if (case nextWord of [] \<Rightarrow> False
                           | c # _ \<Rightarrow> isUpper c \<and> \<not> isStopWord (ToLower nextWord))
                       then nextWord
                       else locationLoop rest))
         else locationLoop rest)"

text \<open>The inner loop of the title case: the words collected from \<open>words[j]\<close> on.\<close>

fun collectTitleWords :: "string list \<Rightarrow> string list" where
  "collectTitleWords [] = []"
| "collectTitleWords (w # ws) =
     (let nextWord = Trim w trimSet
      in if length nextWord = 0 then collectTitleWords ws
         else (let nextWordLower = ToLower nextWord
               in if isStopWord nextWordLower \<or> nextWordLower = ''tomorrow''
                     \<or> nextWordLower = ''today'' \<or> nextWordLower = ''yesterday''
                     \<or> nextWordLower = ''at'' \<or> nextWordLower = ''with''
                     \<or> nextWordLower = ''email'' \<or> nextWordLower = ''phone''
                     \<or> nextWordLower = ''on'' \<or> nextWordLower = ''in''
                     \<or> nextWordLower = ''to''
                  then []
                  else nextWord # collectTitleWords ws))"

fun titleLoop :: "string list \<Rightarrow> string" where
  "titleLoop [] = []"
| "titleLoop (word # rest) =
     (let wordLower = ToLower word
      in if wordLower = ''called'' \<or> wordLower = ''titled'' \<or> wordLower = ''named''
            \<or> wordLower = ''for''
         then (let titleWords = collectTitleWords rest
               in if length titleWords > 0 then Join titleWords '' '' else titleLoop rest)
         else titleLoop rest)"

definition extractEntityByKeywords ::
  "EnhancedLocalProvider \<Rightarrow> string \<Rightarrow> string \<Rightarrow> EntityPattern \<Rightarrow> string" where
  "extractEntityByKeywords p text entityName entity =
     (let words = Fields text
      in if entityName = ''name''
         then (let matches = FindStringSubmatch quotePattern text
               in if length matches > 1 then matches ! 1 else nameLoop words)
         else if entityName = ''email'' then emailLoop words
         else if entityName = ''phone'' then phoneLoop words
         else if entityName = ''date'' then dateLoop words
         else if entityName = ''time'' then timeLoop words
         else if entityName = ''location'' then locationLoop words
         else if entityName = ''title''
         then (let matches = FindStringSubmatch quotePattern text
               in if length matches > 1 then matches ! 1 else titleLoop words)
         else [])"

text \<open>\<open>entities[k]\<close> for the \<open>map[string]string\<close> of results: \<open>""\<close> for a missing key.\<close>

definition entityValue :: "(string \<rightharpoonup> string) \<Rightarrow> string \<Rightarrow> string" where
  "entityValue entities k = (case entities k of Some v \<Rightarrow> v | None \<Rightarrow> [])"

text \<open>The loop over the compiled patterns of one entity, left at the first match.\<close>

fun entityRegexLoop ::
  "Regexp list \<Rightarrow> string \<Rightarrow> string \<Rightarrow> (string \<rightharpoonup> string) \<Rightarrow> (string \<rightharpoonup> string)" where
  "entityRegexLoop [] text entityName entities = entities"
| "entityRegexLoop (re # res) text entityName entities =
     (let matches = FindStringSubmatch re text
      in if length matches > 1 then entities(entityName \<mapsto> matches ! 1)
         else entityRegexLoop res text entityName entities)"

text \<open>
  The body that the three loops of \<open>extractEntities\<close> share word for word: the
  patterns first, the keywords when the entry is still empty.
\<close>

definition extractEntity ::
  "EnhancedLocalProvider \<Rightarrow> string \<Rightarrow> string \<Rightarrow> EntityPattern \<Rightarrow> (string \<rightharpoonup> string)
     \<Rightarrow> (string \<rightharpoonup> string)" where
  "extractEntity p text entityName entity entities =
     (let entities = entityRegexLoop (lookupList (EntityRegexes (compiled p)) entityName)
                       text entityName entities
      in if entityValue entities entityName = []
         then (let value = extractEntityByKeywords p text entityName entity
               in if value \<noteq> [] then entities(entityName \<mapsto> value) else entities)
         else entities)"

fun extractNameLoop ::
  "EnhancedLocalProvider \<Rightarrow> string \<Rightarrow> (string \<times> EntityPattern) list \<Rightarrow> (string \<rightharpoonup> string)
     \<Rightarrow> (string \<rightharpoonup> string)" where
  "extractNameLoop p text [] entities = entities"
| "extractNameLoop p text ((entityName, entity) # rest) entities =
     extractNameLoop p text rest
       (if entityName = ''name'' then extractEntity p text entityName entity entities
        else entities)"

fun extractTitleLoop ::
  "EnhancedLocalProvider \<Rightarrow> string \<Rightarrow> (string \<times> EntityPattern) list \<Rightarrow> (string \<rightharpoonup> string)
     \<Rightarrow> (string \<rightharpoonup> string)" where
  "extractTitleLoop p text [] entities = entities"
| "extractTitleLoop p text ((entityName, entity) # rest) entities =
     extractTitleLoop p text rest
       (if entityName = ''title'' then extractEntity p text entityName entity entities
        else entities)"

fun extractOtherLoop ::
  "EnhancedLocalProvider \<Rightarrow> string \<Rightarrow> (string \<times> EntityPattern) list \<Rightarrow> (string \<rightharpoonup> string)
     \<Rightarrow> (string \<rightharpoonup> string)" where
  "extractOtherLoop p text [] entities = entities"
| "extractOtherLoop p text ((entityName, entity) # rest) entities =
     extractOtherLoop p text rest
       (if entityName = ''name'' \<or> entityName = ''title'' then entities
        else extractEntity p text entityName entity entities)"

definition extractEntities :: "EnhancedLocalProvider \<Rightarrow> string \<Rightarrow> (string \<rightharpoonup> string)" where
  "extractEntities p text =
     (let entities = Map.empty;
          entities = extractNameLoop p text (Entities (config p)) entities;
          entities = extractTitleLoop p text (Entities (config p)) entities;
          entities = extractOtherLoop p text (Entities (config p)) entities
      in entities)"

subsection \<open>Missing fields and follow-up questions\<close>

text \<open>\<open>unicode.IsUpper\<close> on a character of the intent's name.\<close>

definition isUpperRune :: "char \<Rightarrow> bool" where
  "isUpperRune c = (c \<in> set upperLetters)"

fun camelLoop :: "nat \<Rightarrow> string \<Rightarrow> string" where
  "camelLoop i [] = []"
| "camelLoop i (char # chars) =
     (if i > 0 \<and> isUpperRune char then '' '' else []) @ [toLowerChar char]
       @ camelLoop (Suc i) chars"

definition getIntentDisplayName :: "string \<Rightarrow> string" where
  "getIntentDisplayName intentName =
     (if intentName = ''CreateEvent'' then ''event''
      else if intentName = ''CreateTask'' then ''task''
      else if intentName = ''CreateContact'' then ''contact''
      else if intentName = ''CreateNote'' then ''note''
      else if intentName = ''Weather'' then ''weather''
      else if intentName = ''Time'' then ''time''
      else if intentName = ''Calculator'' then ''calculation''
      else camelLoop 0 intentName)"

text \<open>The first custom question that names the field, if there is one.\<close>

fun customQuestion :: "string list \<Rightarrow> string \<Rightarrow> string option" where
  "customQuestion [] field = None"
| "customQuestion (question # questions) field =
     (if Contains (ToLower question) (ToLower field) then Some question
      else customQuestion questions field)"

definition defaultQuestion :: "string \<Rightarrow> string \<Rightarrow> string" where
  "defaultQuestion intentName field =
     (if field = ''title''
      then ''What should I call this '' @ getIntentDisplayName intentName @ ''?''
      else if field = ''name'' then ''What's the name?''
      else if field = ''email'' then ''What's the email address?''
      else if field = ''phone'' then ''What's the phone number?''
      else if field = ''date''
      then ''When should this '' @ getIntentDisplayName intentName @ '' be scheduled?''
      else if field = ''time''
      then ''What time should this '' @ getIntentDisplayName intentName @ '' be?''
      else if field = ''duration''
      then ''How long should this '' @ getIntentDisplayName intentName @ '' last?''
      else if field = ''location''
      then ''Where should this '' @ getIntentDisplayName intentName @ '' take place?''
      else if field = ''description''
      then ''Can you provide more details about this '' @ getIntentDisplayName intentName @ ''?''
      else if field = ''priority''
      then ''What priority should this '' @ getIntentDisplayName intentName @ '' have?''
      else ''What '' @ field @ '' should I use for this '' @ getIntentDisplayName intentName
             @ ''?'')"

definition generateFollowUpQuestion :: "string \<Rightarrow> string \<Rightarrow> string list \<Rightarrow> string" where
  "generateFollowUpQuestion intentName field customFollowUp =
     (case customQuestion customFollowUp field of
        Some question \<Rightarrow> question
      | None \<Rightarrow> defaultQuestion intentName field)"

text \<open>\<open>value, exists := intent.Vars[requiredField]; !exists || value == ""\<close>.\<close>

definition fieldMissing :: "(string \<rightharpoonup> Value) \<Rightarrow> string \<Rightarrow> bool" where
  "fieldMissing vars requiredField =
     (case vars requiredField of None \<Rightarrow> True | Some v \<Rightarrow> v = StringValue [])"

definition addMissingFieldsAndFollowUp ::
  "EnhancedLocalProvider \<Rightarrow> Intent \<Rightarrow> string \<Rightarrow> Intent" where
  "addMissingFieldsAndFollowUp p intent intentName =
     (case map_of (Intents (config p)) intentName of
        None \<Rightarrow> intent
      | Some intentPattern \<Rightarrow>
          (let missing = filter (fieldMissing (Vars intent)) (Required intentPattern);
               followUp = filter (\<lambda>question. question \<noteq> [])
                            (map (\<lambda>field. generateFollowUpQuestion intentName field
                                            (FollowUp intentPattern)) missing)
           in intent\<lparr> Missing := missing, IntentFollowUp := followUp,
                       IsComplete := (length missing = 0) \<rparr>))"

subsection \<open>ExtractIntent\<close>

text \<open>The error that \<open>ExtractIntent\<close> returns is always \<open>nil\<close>; the model returns the intent.\<close>

definition ExtractIntent :: "EnhancedLocalProvider \<Rightarrow> string \<Rightarrow> Intent" where
  "ExtractIntent p text =
     (let normalizedText = normalizeText text;
          intentResult = classifyIntent p normalizedText;
          entities = extractEntities p text;
          result = \<lparr> Task = ResultIntent intentResult, Vars = Map.empty, IntentConfidence = 0,
                     Missing = [], IntentFollowUp = [], IsComplete = False \<rparr>;
          result = result\<lparr> Vars := (\<lambda>entityType. map_option StringValue (entities entityType)) \<rparr>;
          result = result\<lparr> Vars := (Vars result)(''confidence'' \<mapsto>
                                      FloatValue (ResultConfidence intentResult)) \<rparr>
      in if ResultIntent intentResult \<noteq> ''UNKNOWN''
         then addMissingFieldsAndFollowUp p result (ResultIntent intentResult)
         else result)"

subsection \<open>Compilation of a configuration\<close>

text \<open>
  \<open>regexp.Compile\<close> is a parameter \<open>rc\<close> of the model: \<open>None\<close> is a pattern that does
  not compile. \<open>m[k] = v\<close> on an association list replaces the entry of \<open>k\<close>.
\<close>

datatype CompileError = InvalidIntentRegex string | InvalidEntityRegex string

definition mapSet :: "(string \<times> 'a) list \<Rightarrow> string \<Rightarrow> 'a \<Rightarrow> (string \<times> 'a) list" where
  "mapSet m k v = filter (\<lambda>e. fst e \<noteq> k) m @ [(k, v)]"

fun compilePatterns :: "(string \<Rightarrow> Regexp option) \<Rightarrow> string list \<Rightarrow> Regexp list option" where
  "compilePatterns rc [] = Some []"
| "compilePatterns rc (pattern # patterns) =
     (case rc pattern of
        None \<Rightarrow> None
      | Some re \<Rightarrow> map_option (\<lambda>regexes. re # regexes) (compilePatterns rc patterns))"

fun compileIntents ::
  "(string \<Rightarrow> Regexp option) \<Rightarrow> (string \<times> IntentPattern) list \<Rightarrow> CompiledConfig
     \<Rightarrow> CompileError + CompiledConfig" where
  "compileIntents rc [] c = Inr c"
| "compileIntents rc ((intentName, intent) # rest) c =
     (case compilePatterns rc (Regex intent) of
        None \<Rightarrow> Inl (InvalidIntentRegex intentName)
      | Some regexes \<Rightarrow>
          compileIntents rc rest
            (c\<lparr> IntentRegexes := mapSet (IntentRegexes c) intentName regexes,
                KeywordMap := mapSet (KeywordMap c) intentName (Keywords intent),
                PhraseMap := mapSet (PhraseMap c) intentName (Phrases intent) \<rparr>))"

fun compileEntities ::
  "(string \<Rightarrow> Regexp option) \<Rightarrow> (string \<times> EntityPattern) list \<Rightarrow> CompiledConfig
     \<Rightarrow> CompileError + CompiledConfig" where
  "compileEntities rc [] c = Inr c"
| "compileEntities rc ((entityName, entity) # rest) c =
     (case compilePatterns rc (EntityRegex entity) of
        None \<Rightarrow> Inl (InvalidEntityRegex entityName)
      | Some regexes \<Rightarrow>
          compileEntities rc rest
            (c\<lparr> EntityRegexes := mapSet (EntityRegexes c) entityName regexes \<rparr>))"

fun buildSynonymMap :: "(string \<times> string list) list \<Rightarrow> (string \<times> string) list
     \<Rightarrow> (string \<times> string) list" where
  "buildSynonymMap [] m = m"
| "buildSynonymMap ((word, synonyms) # rest) m =
     buildSynonymMap rest (foldl (\<lambda>m synonym. mapSet m synonym word) m synonyms)"

definition compileConfig ::
  "(string \<Rightarrow> Regexp option) \<Rightarrow> IntentConfig \<Rightarrow> CompileError + CompiledConfig" where
  "compileConfig rc cfg =
     (let c = \<lparr> IntentRegexes = [], EntityRegexes = [], KeywordMap = [], PhraseMap = [],
                SynonymMap = [] \<rparr>
      in case compileIntents rc (Intents cfg) c of
           Inl e \<Rightarrow> Inl e
         | Inr c \<Rightarrow>
             (case compileEntities rc (Entities cfg) c of
                Inl e \<Rightarrow> Inl e
              | Inr c \<Rightarrow> Inr (c\<lparr> SynonymMap := buildSynonymMap (Synonyms cfg) (SynonymMap c) \<rparr>)))"

subsection \<open>The default configuration\<close>

text \<open>
  The patterns of the three entities, as the source writes them
  (\<open>CHR 0x5C\<close> is the backslash).
\<close>

definition namePattern :: string where
  "namePattern =
     ''(?i)(?:named'' @ [CHR 0x5C] @ ''s+|name'' @ [CHR 0x5C] @ ''s+is'' @ [CHR 0x5C]
       @ ''s+|call(?:ed)?'' @ [CHR 0x5C] @ ''s+)([A-Z][a-z]+(?:'' @ [CHR 0x5C]
       @ ''s+[A-Z][a-z]+)*)''"

definition emailPattern :: string where
  "emailPattern =
     ''(?i)([a-zA-Z0-9._%+-]+@[a-zA-Z0-9.-]+'' @ [CHR 0x5C] @ ''.[a-zA-Z]{2,})''"

definition phonePattern :: string where
  "phonePattern =
     ''(?i)('' @ [CHR 0x5C] @ ''+'' @ [CHR 0x5C] @ ''d{1,3}[-.'' @ [CHR 0x5C] @ ''s]?)?''
       @ [CHR 0x5C] @ ''(?'' @ [CHR 0x5C] @ ''d{3}'' @ [CHR 0x5C] @ '')?[-.'' @ [CHR 0x5C]
       @ ''s]?'' @ [CHR 0x5C] @ ''d{3}[-.'' @ [CHR 0x5C] @ ''s]?'' @ [CHR 0x5C] @ ''d{4}''"

definition createContactPattern :: IntentPattern where
  "createContactPattern =
     \<lparr> Description = ''Create a new contact'',
       Keywords = [''create'', ''add'', ''new'', ''save''],
       Phrases = [''create contact'', ''add contact'', ''new contact'', ''save contact''],
       Regex = [],
       Priority = 10,
       Variables = [''name'', ''email'', ''phone''],
       Required = [],
       Examples = [''create a new contact named bob'',
                   ''add contact alice with email alice@example.com''],
       FollowUp = [] \<rparr>"

definition findContactPattern :: IntentPattern where
  "findContactPattern =
     \<lparr> Description = ''Find or search for a contact'',
       Keywords = [''find'', ''search'', ''look'', ''get''],
       Phrases = [''find contact'', ''search contact'', ''look up contact''],
       Regex = [],
       Priority = 8,
       Variables = [''name''],
       Required = [],
       Examples = [''find contact bob'', ''search for alice''],
       FollowUp = [] \<rparr>"

definition nameEntity :: EntityPattern where
  "nameEntity =
     \<lparr> EntityType = ''name'',
       EntityDescription = ''Person's name'',
       EntityRegex = [namePattern],
       EntityKeywords = [''named'', ''name'', ''called''],
       EntityExamples = [] \<rparr>"

definition emailEntity :: EntityPattern where
  "emailEntity =
     \<lparr> EntityType = ''email'',
       EntityDescription = ''Email address'',
       EntityRegex = [emailPattern],
       EntityKeywords = [''email'', ''e-mail'', ''mail''],
       EntityExamples = [] \<rparr>"

definition phoneEntity :: EntityPattern where
  "phoneEntity =
     \<lparr> EntityType = ''phone'',
       EntityDescription = ''Phone number'',
       EntityRegex = [phonePattern],
       EntityKeywords = [''phone'', ''telephone'', ''mobile'', ''cell''],
       EntityExamples = [] \<rparr>"

definition GetDefaultConfig :: IntentConfig where
  "GetDefaultConfig =
     \<lparr> Domain = ''personal_assistant'',
       Version = ''1.0.0'',
       Intents =
         [(''CREATE_CONTACT'', createContactPattern), (''FIND_CONTACT'', findContactPattern)],
       Entities =
         [(''name'', nameEntity), (''email'', emailEntity), (''phone'', phoneEntity)],
       Synonyms =
         [(''create'', [''add'', ''new'', ''save'', ''store'', ''insert'']),
          (''find'', [''search'', ''look'', ''locate'', ''get'']),
          (''update'', [''change'', ''modify'', ''edit'', ''alter'']),
          (''delete'', [''remove'', ''drop'', ''erase'', ''clear''])],
       Confidence =
         [(''CREATE_CONTACT'', 0.7),
          (''FIND_CONTACT'', 0.6),
          (''UPDATE_CONTACT'', 0.6),
          (''DELETE_CONTACT'', 0.6)] \<rparr>"

text \<open>
  The three patterns of the default configuration as syntax trees, all under \<open>(?i)\<close>:
  \<open>\s\<close> is \<open>[\t\n\f\r ]\<close> and \<open>\d\<close> is \<open>[0-9]\<close>.
\<close>

definition rxSpace :: rx where
  "rxSpace = RChar (\<lambda>c. c \<in> set [CHR 0x09, CHR 0x0A, CHR 0x0C, CHR 0x0D, CHR 0x20])"

definition rxDigit :: rx where
  "rxDigit = RChar (\<lambda>c. c \<in> set digitChars)"

definition rxLetter :: rx where
  "rxLetter = RChar (foldCase (\<lambda>c. c \<in> set upperLetters))"

definition rxSeparator :: rx where
  "rxSeparator = RChar (\<lambda>c. c = CHR ''-'' \<or> c = CHR ''.'' \<or> c \<in> set [CHR 0x09, CHR 0x0A, CHR 0x0C, CHR 0x0D, CHR 0x20])"

text \<open>\<open>(?i)(?:named\s+|name\s+is\s+|call(?:ed)?\s+)([A-Z][a-z]+(?:\s+[A-Z][a-z]+)*)\<close>\<close>

definition nameRx :: rx where
  "nameRx =
     RSeq (RAlt (RSeq (RLit ''named'') (RPlus rxSpace))
            (RAlt (RSeq (RLit ''name'') (RSeq (RPlus rxSpace) (RSeq (RLit ''is'') (RPlus rxSpace))))
                  (RSeq (RLit ''call'') (RSeq (ROpt (RLit ''ed'')) (RPlus rxSpace)))))
          (RGroup 1 (RSeq rxLetter (RSeq (RPlus rxLetter)
             (RStar (RSeq (RPlus rxSpace) (RSeq rxLetter (RPlus rxLetter)))))))"

text \<open>\<open>(?i)([a-zA-Z0-9._%+-]+@[a-zA-Z0-9.-]+\.[a-zA-Z]{2,})\<close>\<close>

definition emailRx :: rx where
  "emailRx =
     RGroup 1
       (RSeq (RPlus (RChar (foldCase (\<lambda>c. c \<in> set (lowerLetters @ upperLetters @ digitChars
                                                       @ ''._%+-'')))))
         (RSeq (RChar (\<lambda>c. c = CHR ''@''))
           (RSeq (RPlus (RChar (foldCase (\<lambda>c. c \<in> set (lowerLetters @ upperLetters @ digitChars
                                                           @ ''.-'')))))
             (RSeq (RChar (\<lambda>c. c = CHR ''.''))
               (RSeq rxLetter (RSeq rxLetter (RStar rxLetter)))))))"

text \<open>\<open>(?i)(\+\d{1,3}[-.\s]?)?\(?\d{3}\)?[-.\s]?\d{3}[-.\s]?\d{4}\<close>\<close>

definition phoneRx :: rx where
  "phoneRx =
     RSeq (ROpt (RGroup 1 (RSeq (RChar (\<lambda>c. c = CHR ''+''))
                   (RSeq (RSeq rxDigit (ROpt (RSeq rxDigit (ROpt rxDigit))))
                         (ROpt rxSeparator)))))
       (RSeq (ROpt (RChar (\<lambda>c. c = CHR ''('')))
         (RSeq (RSeq rxDigit (RSeq rxDigit rxDigit))
           (RSeq (ROpt (RChar (\<lambda>c. c = CHR '')'')))
             (RSeq (ROpt rxSeparator)
               (RSeq (RSeq rxDigit (RSeq rxDigit rxDigit))
                 (RSeq (ROpt rxSeparator)
                   (RSeq rxDigit (RSeq rxDigit (RSeq rxDigit rxDigit)))))))))"

text \<open>\<open>regexp.Compile\<close> on the patterns of the default configuration.\<close>

definition defaultCompile :: "string \<Rightarrow> Regexp option" where
  "defaultCompile pattern =
     (if pattern = namePattern then Some (regexpOf 1 nameRx)
      else if pattern = emailPattern then Some (regexpOf 1 emailRx)
      else if pattern = phonePattern then Some (regexpOf 1 phoneRx)
      else None)"

text \<open>
  What \<open>NewEnhancedLocalProvider("")\<close> builds: the default configuration and its
  compiled form.
\<close>

definition defaultCompiled :: CompiledConfig where
  "defaultCompiled =
     \<lparr> IntentRegexes = [(''CREATE_CONTACT'', []), (''FIND_CONTACT'', [])],
       EntityRegexes = [(''name'', [regexpOf 1 nameRx]), (''email'', [regexpOf 1 emailRx]),
                        (''phone'', [regexpOf 1 phoneRx])],
       KeywordMap = [(''CREATE_CONTACT'', [''create'', ''add'', ''new'', ''save'']),
                     (''FIND_CONTACT'', [''find'', ''search'', ''look'', ''get''])],
       PhraseMap = [(''CREATE_CONTACT'', [''create contact'', ''add contact'', ''new contact'',
                                          ''save contact'']),
                    (''FIND_CONTACT'', [''find contact'', ''search contact'',
                                        ''look up contact''])],
       SynonymMap = buildSynonymMap (Synonyms GetDefaultConfig) [] \<rparr>"

definition defaultProvider :: EnhancedLocalProvider where
  "defaultProvider = \<lparr> config = GetDefaultConfig, compiled = defaultCompiled, configPath = [] \<rparr>"

subsection \<open>Small configurations\<close>

text \<open>
  Three configurations without patterns, used as concrete inputs: one
  intent with two keywords and two required fields; two intents that differ in
  nothing but their name; one intent whose required field and custom question are
  both the empty string.
\<close>

definition noRegexCompiled :: "(string \<times> IntentPattern) list \<Rightarrow> CompiledConfig" where
  "noRegexCompiled intents =
     \<lparr> IntentRegexes = map (\<lambda>e. (fst e, [])) intents,
       EntityRegexes = [(''name'', [])],
       KeywordMap = map (\<lambda>e. (fst e, Keywords (snd e))) intents,
       PhraseMap = map (\<lambda>e. (fst e, Phrases (snd e))) intents,
       SynonymMap = [] \<rparr>"

definition plainEntity :: "string \<Rightarrow> EntityPattern" where
  "plainEntity t =
     \<lparr> EntityType = t, EntityDescription = t, EntityRegex = [], EntityKeywords = [],
       EntityExamples = [] \<rparr>"

definition plainProvider :: "(string \<times> IntentPattern) list \<Rightarrow> EnhancedLocalProvider" where
  "plainProvider intents =
     \<lparr> config = \<lparr> Domain = ''greeting'', Version = ''1'', Intents = intents,
                  Entities = [(''name'', plainEntity ''name'')], Synonyms = [], Confidence = [] \<rparr>,
       compiled = noRegexCompiled intents,
       configPath = ''greeting.json'' \<rparr>"

definition greetIntent :: IntentPattern where
  "greetIntent =
     \<lparr> Description = ''Greeting'', Keywords = [''hello'', ''welcome''], Phrases = [], Regex = [],
       Priority = 0, Variables = [''name''], Required = [''name'', ''confidence''],
       Examples = [], FollowUp = [''Which NAME should I greet?''] \<rparr>"

definition greetProvider :: EnhancedLocalProvider where
  "greetProvider = plainProvider [(''GREET'', greetIntent)]"

definition tieIntent :: IntentPattern where
  "tieIntent =
     \<lparr> Description = ''Greeting'', Keywords = [''hello''], Phrases = [], Regex = [],
       Priority = 1, Variables = [], Required = [], Examples = [], FollowUp = [] \<rparr>"

definition tieProvider :: EnhancedLocalProvider where
  "tieProvider = plainProvider [(''GREET'', tieIntent), (''SALUTE'', tieIntent)]"

definition emptyFieldIntent :: IntentPattern where
  "emptyFieldIntent =
     \<lparr> Description = ''Greeting'', Keywords = [''hello''], Phrases = [], Regex = [],
       Priority = 1, Variables = [], Required = [[]], Examples = [], FollowUp = [[]] \<rparr>"

definition emptyFieldProvider :: EnhancedLocalProvider where
  "emptyFieldProvider = plainProvider [(''GREET'', emptyFieldIntent)]"

text \<open>
  A configuration whose \<open>name\<close> entity has the pattern for phone numbers: a pattern
  that can match with its only group empty.
\<close>

definition phoneNameProvider :: EnhancedLocalProvider where
  "phoneNameProvider =
     \<lparr> config = \<lparr> Domain = ''greeting'', Version = ''1'', Intents = [(''GREET'', greetIntent)],
                  Entities = [(''name'', (plainEntity ''name'')\<lparr> EntityRegex := [phonePattern] \<rparr>)],
                  Synonyms = [], Confidence = [] \<rparr>,
       compiled = (noRegexCompiled [(''GREET'', greetIntent)])
                    \<lparr> EntityRegexes := [(''name'', [regexpOf 1 phoneRx])] \<rparr>,
       configPath = ''greeting.json'' \<rparr>"

text \<open>
  The first configuration with an entity called \<open>confidence\<close> in place of \<open>name\<close>, whose
  pattern is the one for quoted spans.
\<close>

definition quotePatternSource :: string where
  "quotePatternSource = [quoteChar] @ ''([^'' @ [quoteChar] @ '']+)'' @ [quoteChar]"

definition confidenceEntityProvider :: EnhancedLocalProvider where
  "confidenceEntityProvider =
     \<lparr> config = \<lparr> Domain = ''greeting'', Version = ''1'', Intents = [(''GREET'', greetIntent)],
                  Entities = [(''confidence'',
                               (plainEntity ''confidence'')\<lparr> EntityRegex := [quotePatternSource] \<rparr>)],
                  Synonyms = [], Confidence = [] \<rparr>,
       compiled = (noRegexCompiled [(''GREET'', greetIntent)])
                    \<lparr> EntityRegexes := [(''confidence'', [quotePattern])] \<rparr>,
       configPath = ''greeting.json'' \<rparr>"

subsection \<open>Auxiliary notions for the properties\<close>

text \<open>
  The same provider with its two maps of definitions visited in another order.
\<close>

definition withOrder ::
  "EnhancedLocalProvider \<Rightarrow> (string \<times> IntentPattern) list \<Rightarrow> (string \<times> EntityPattern) list
     \<Rightarrow> EnhancedLocalProvider" where
  "withOrder p intents entities =
     p\<lparr> config := (config p)\<lparr> Intents := intents, Entities := entities \<rparr> \<rparr>"

text \<open>
  What \<open>entityRegexLoop\<close> and \<open>extractEntity\<close> do to the one entry of the result map
  that they touch, \<open>cur\<close> being the entry before.
\<close>

fun regexOutcome :: "Regexp list \<Rightarrow> string \<Rightarrow> string option \<Rightarrow> string option" where
  "regexOutcome [] text cur = cur"
| "regexOutcome (re # res) text cur =
     (let matches = FindStringSubmatch re text
      in if length matches > 1 then Some (matches ! 1) else regexOutcome res text cur)"

definition entityOutcome ::
  "EnhancedLocalProvider \<Rightarrow> string \<Rightarrow> string \<Rightarrow> EntityPattern \<Rightarrow> string option
     \<Rightarrow> string option" where
  "entityOutcome p text entityName entity cur =
     (let cur = regexOutcome (lookupList (EntityRegexes (compiled p)) entityName) text cur
      in if (case cur of Some v \<Rightarrow> v | None \<Rightarrow> []) = []
         then (let value = extractEntityByKeywords p text entityName entity
               in if value \<noteq> [] then Some value else cur)
         else cur)"

text \<open>
  The keyword signal in the words of the specification: what one keyword adds to the
  raw sum.
\<close>

definition keywordContribution :: "EnhancedLocalProvider \<Rightarrow> string \<Rightarrow> string \<Rightarrow> real" where
  "keywordContribution p textLower keyword =
     (if Contains textLower (ToLower keyword) then 0.4
      else if list_ex (\<lambda>synonym. Contains textLower (ToLower synonym)) (getSynonyms p keyword)
      then 0.3
      else 0)"

section \<open>Classification: range and threshold\<close>

lemma classifyLoop_score_ge:
  "bs \<le> snd (classifyLoop p text xs (bi, bs))"
proof (induction xs arbitrary: bi bs)
  case Nil
  show ?case by simp
next
  case (Cons e xs)
  obtain n ip where e: "e = (n, ip)" by (cases e)
  show ?case
  proof (cases "boostedScore p text n ip > bs")
    case True
    have "boostedScore p text n ip \<le> snd (classifyLoop p text xs (n, boostedScore p text n ip))"
      by (rule Cons.IH)
    with True show ?thesis by (simp add: e)
  next
    case False
    with Cons.IH [of bs bi] show ?thesis by (simp add: e)
  qed
qed

lemma classifyLoop_name:
  "fst (classifyLoop p text xs (bi, bs)) = bi
   \<or> fst (classifyLoop p text xs (bi, bs)) \<in> fst ` set xs"
proof (induction xs arbitrary: bi bs)
  case Nil
  show ?case by simp
next
  case (Cons e xs)
  obtain n ip where e: "e = (n, ip)" by (cases e)
  show ?case
  proof (cases "boostedScore p text n ip > bs")
    case True
    with Cons.IH [of n "boostedScore p text n ip"] show ?thesis by (auto simp: e)
  next
    case False
    with Cons.IH [of bi bs] show ?thesis by (auto simp: e)
  qed
qed

text \<open>An intent that does not beat the best score so far leaves the loop's state alone.\<close>

lemma classifyLoop_no_improvement:
  "\<forall>e \<in> set xs. boostedScore p text (fst e) (snd e) \<le> bs \<Longrightarrow>
   classifyLoop p text xs (bi, bs) = (bi, bs)"
  by (induction xs) auto

text \<open>
  The loop returns the first intent, in the order of iteration, among those with the
  highest score, when that score beats the initial one.
\<close>

lemma classifyLoop_first_max:
  "\<forall>e \<in> set pre. boostedScore p text (fst e) (snd e) < boostedScore p text n ip \<Longrightarrow>
   \<forall>e \<in> set post. boostedScore p text (fst e) (snd e) \<le> boostedScore p text n ip \<Longrightarrow>
   bs < boostedScore p text n ip \<Longrightarrow>
   classifyLoop p text (pre @ (n, ip) # post) (bi, bs) = (n, boostedScore p text n ip)"
proof (induction pre arbitrary: bi bs)
  case Nil
  then show ?case by (simp add: classifyLoop_no_improvement)
next
  case (Cons e pre)
  obtain n' ip' where e: "e = (n', ip')" by (cases e)
  from Cons.prems(1) have lt: "boostedScore p text n' ip' < boostedScore p text n ip"
    and pre: "\<forall>e \<in> set pre. boostedScore p text (fst e) (snd e) < boostedScore p text n ip"
    by (auto simp: e)
  show ?case
  proof (cases "boostedScore p text n' ip' > bs")
    case True
    with Cons.IH [OF pre Cons.prems(2) lt] show ?thesis by (simp add: e)
  next
    case False
    with Cons.IH [OF pre Cons.prems(2) Cons.prems(3)] show ?thesis by (simp add: e)
  qed
qed

text \<open>
  C7. For every provider and every text, \<open>classifyIntent\<close> returns a confidence between
  0 and 1, and an intent that is a key of the configured intents or \<open>"UNKNOWN"\<close>.
\<close>

theorem classifyIntent_range:
  "0 \<le> ResultConfidence (classifyIntent p text) \<and> ResultConfidence (classifyIntent p text) \<le> 1
   \<and> (ResultIntent (classifyIntent p text) \<in> fst ` set (Intents (config p))
        \<or> ResultIntent (classifyIntent p text) = ''UNKNOWN'')"
proof -
  obtain bi bs where loop: "classifyLoop p text (Intents (config p)) (''UNKNOWN'', 0) = (bi, bs)"
    by (cases "classifyLoop p text (Intents (config p)) (''UNKNOWN'', 0)")
  from classifyLoop_score_ge [of "0" p "text" "Intents (config p)" "''UNKNOWN''"] loop
  have ge: "0 \<le> bs" by simp
  from classifyLoop_name [of p "text" "Intents (config p)" "''UNKNOWN''" "0"] loop
  have nm: "bi = ''UNKNOWN'' \<or> bi \<in> fst ` set (Intents (config p))" by simp
  show ?thesis
  proof (cases "bs < thresholdOf p bi")
    case True
    with loop show ?thesis by (simp add: classifyIntent_def)
  next
    case False
    with loop ge nm show ?thesis by (auto simp: classifyIntent_def)
  qed
qed

theorem classifyIntent_range_witness:
  "0 \<le> ResultConfidence (classifyIntent greetProvider ''hello welcome'')
   \<and> ResultConfidence (classifyIntent greetProvider ''hello welcome'') \<le> 1
   \<and> (ResultIntent (classifyIntent greetProvider ''hello welcome'')
          \<in> fst ` set (Intents (config greetProvider))
        \<or> ResultIntent (classifyIntent greetProvider ''hello welcome'') = ''UNKNOWN'')"
  by (rule classifyIntent_range)

text \<open>
  C3. Let \<open>(n, ip)\<close> be the highest-scoring intent: every intent visited before it has a
  strictly lower score after the priority boost, and none visited after it has a
  higher one. If its score is below its configured threshold, or below 0.5 when no
  threshold is configured for \<open>n\<close>, then \<open>classifyIntent\<close> returns \<open>"UNKNOWN"\<close> with
  confidence 0.
\<close>

theorem classifyIntent_below_threshold:
  assumes order: "Intents (config p) = pre @ (n, ip) # post"
    and before: "\<forall>e \<in> set pre. boostedScore p text (fst e) (snd e) < boostedScore p text n ip"
    and after: "\<forall>e \<in> set post. boostedScore p text (fst e) (snd e) \<le> boostedScore p text n ip"
    and below: "boostedScore p text n ip
                  < (case map_of (Confidence (config p)) n of Some t \<Rightarrow> t | None \<Rightarrow> 0.5)"
  shows "classifyIntent p text = \<lparr> ResultIntent = ''UNKNOWN'', ResultConfidence = 0 \<rparr>"
proof (cases "0 < boostedScore p text n ip")
  case True
  from classifyLoop_first_max [OF before after True, of "''UNKNOWN''"] order
  have loop: "classifyLoop p text (Intents (config p)) (''UNKNOWN'', 0)
                = (n, boostedScore p text n ip)" by simp
  from below True have "boostedScore p text n ip < thresholdOf p n"
    by (auto simp: thresholdOf_def split: option.splits)
  with loop show ?thesis by (simp add: classifyIntent_def)
next
  case False
  from False before after order
  have "\<forall>e \<in> set (Intents (config p)). boostedScore p text (fst e) (snd e) \<le> 0"
    by fastforce
  then have loop: "classifyLoop p text (Intents (config p)) (''UNKNOWN'', 0) = (''UNKNOWN'', 0)"
    by (rule classifyLoop_no_improvement)
  then show ?thesis by (simp add: classifyIntent_def)
qed

theorem classifyIntent_below_threshold_witness:
  "Intents (config greetProvider) = [] @ (''GREET'', greetIntent) # []
   \<and> boostedScore greetProvider ''hello'' ''GREET'' greetIntent = 3 / 10
   \<and> map_of (Confidence (config greetProvider)) ''GREET'' = None
   \<and> classifyIntent greetProvider ''hello''
       = \<lparr> ResultIntent = ''UNKNOWN'', ResultConfidence = 0 \<rparr>"
proof -
  have order: "Intents (config greetProvider) = [] @ (''GREET'', greetIntent) # []"
    by (simp add: greetProvider_def plainProvider_def)
  have score: "boostedScore greetProvider ''hello'' ''GREET'' greetIntent = 3 / 10"
    by code_simp
  have conf: "map_of (Confidence (config greetProvider)) ''GREET'' = None"
    by (simp add: greetProvider_def plainProvider_def)
  have below: "boostedScore greetProvider ''hello'' ''GREET'' greetIntent
                 < (case map_of (Confidence (config greetProvider)) ''GREET'' of
                      Some t \<Rightarrow> t | None \<Rightarrow> 0.5)"
    by (simp add: score conf)
  from classifyIntent_below_threshold [OF order _ _ below] order score conf
  show ?thesis by simp
qed

section \<open>Entity extraction, entry by entry\<close>

lemma entityRegexLoop_slot:
  "entityRegexLoop res text k m = m(k := regexOutcome res text (m k))"
  by (induction res) (auto simp: fun_eq_iff Let_def)

lemma extractEntity_slot:
  "extractEntity p text k e m = m(k := entityOutcome p text k e (m k))"
  by (auto simp: extractEntity_def entityOutcome_def entityRegexLoop_slot entityValue_def Let_def
        fun_eq_iff)

lemma extractNameLoop_lookup:
  "distinct (map fst xs) \<Longrightarrow>
   extractNameLoop p text xs m k =
     (case map_of xs k of
        Some e \<Rightarrow> if k = ''name'' then entityOutcome p text k e (m k) else m k
      | None \<Rightarrow> m k)"
proof (induction xs arbitrary: m)
  case Nil
  show ?case by simp
next
  case (Cons x xs)
  obtain n e where x: "x = (n, e)" by (cases x)
  from Cons.prems have d: "distinct (map fst xs)" and nin: "n \<notin> fst ` set xs" by (auto simp: x)
  from nin have none: "map_of xs n = None" by (simp add: map_of_eq_None_iff)
  show ?case
    using Cons.IH [OF d] none by (auto simp: x extractEntity_slot split: option.splits)
qed

lemma extractTitleLoop_lookup:
  "distinct (map fst xs) \<Longrightarrow>
   extractTitleLoop p text xs m k =
     (case map_of xs k of
        Some e \<Rightarrow> if k = ''title'' then entityOutcome p text k e (m k) else m k
      | None \<Rightarrow> m k)"
proof (induction xs arbitrary: m)
  case Nil
  show ?case by simp
next
  case (Cons x xs)
  obtain n e where x: "x = (n, e)" by (cases x)
  from Cons.prems have d: "distinct (map fst xs)" and nin: "n \<notin> fst ` set xs" by (auto simp: x)
  from nin have none: "map_of xs n = None" by (simp add: map_of_eq_None_iff)
  show ?case
    using Cons.IH [OF d] none by (auto simp: x extractEntity_slot split: option.splits)
qed

lemma extractOtherLoop_lookup:
  "distinct (map fst xs) \<Longrightarrow>
   extractOtherLoop p text xs m k =
     (case map_of xs k of
        Some e \<Rightarrow> if k = ''name'' \<or> k = ''title'' then m k else entityOutcome p text k e (m k)
      | None \<Rightarrow> m k)"
proof (induction xs arbitrary: m)
  case Nil
  show ?case by simp
next
  case (Cons x xs)
  obtain n e where x: "x = (n, e)" by (cases x)
  from Cons.prems have d: "distinct (map fst xs)" and nin: "n \<notin> fst ` set xs" by (auto simp: x)
  from nin have none: "map_of xs n = None" by (simp add: map_of_eq_None_iff)
  show ?case
    using Cons.IH [OF d] none by (auto simp: x extractEntity_slot split: option.splits)
qed

lemma extractEntities_lookup:
  "distinct (map fst (Entities (config p))) \<Longrightarrow>
   extractEntities p text k =
     (case map_of (Entities (config p)) k of
        Some e \<Rightarrow> entityOutcome p text k e None
      | None \<Rightarrow> None)"
  by (simp add: extractEntities_def extractNameLoop_lookup extractTitleLoop_lookup
        extractOtherLoop_lookup split: option.splits)

section \<open>The pattern for quoted spans\<close>

lemma rmatch_RChar_Cons: "rmatch (RChar P) (c # cs, k) = (if P c then [(cs, k)] else [])"
  by simp

lemma rmatch_RChar_Nil: "rmatch (RChar P) ([], k) = []"
  by simp

lemma rmatch_RSeq: "rmatch (RSeq a b) st = concat (map (rmatch b) (rmatch a st))"
  by simp

lemma rmatch_RStar: "rmatch (RStar a) st = starIter (length (fst st)) (rmatch a) st"
  by simp

lemma rmatch_RGroup:
  "rmatch (RGroup i a) st =
     map (\<lambda>st'. (fst st', (i, take (length (fst st) - length (fst st')) (fst st)) # snd st'))
         (rmatch a st)"
  by simp

lemma starIter_run:
  "list_all P xs \<Longrightarrow> (rest = [] \<or> \<not> P (hd rest)) \<Longrightarrow> length xs \<le> n \<Longrightarrow>
   \<exists>tl. starIter n (rmatch (RChar P)) (xs @ rest, k) = (rest, k) # tl"
proof (induction xs arbitrary: n)
  case Nil
  show ?case
  proof (cases n)
    case 0
    then show ?thesis by simp
  next
    case (Suc n')
    from Nil.prems(2) have "rmatch (RChar P) (rest, k) = []"
      by (cases rest) (simp_all del: rmatch.simps add: rmatch_RChar_Cons rmatch_RChar_Nil)
    then show ?thesis by (simp del: rmatch.simps add: Suc)
  qed
next
  case (Cons x xs)
  then obtain n' where n: "n = Suc n'" by (cases n) auto
  from Cons.prems n have "list_all P xs" "length xs \<le> n'" "P x" by auto
  from Cons.IH [OF this(1) Cons.prems(2) this(2)]
  obtain tl where "starIter n' (rmatch (RChar P)) (xs @ rest, k) = (rest, k) # tl" by blast
  with \<open>P x\<close> show ?case by (simp del: rmatch.simps add: n rmatch_RChar_Cons)
qed

lemma quotePattern_find:
  assumes pre: "quoteChar \<notin> set pre" and body: "quoteChar \<notin> set body" and ne: "body \<noteq> []"
  shows "FindStringSubmatch quotePattern (pre @ quoteChar # body @ quoteChar # post)
           = [quoteChar # body @ [quoteChar], body]"
proof -
  define r where "r = RSeq (RChar (\<lambda>c. c = quoteChar))
       (RSeq (RGroup 1 (RPlus (RChar (\<lambda>c. c \<noteq> quoteChar)))) (RChar (\<lambda>c. c = quoteChar)))"
  define t where "t = quoteChar # body @ quoteChar # post"
  obtain b bs where b: "body = b # bs" using ne by (cases body) auto
  from body b have bq: "b \<noteq> quoteChar" and bsq: "list_all (\<lambda>c. c \<noteq> quoteChar) bs"
    by (auto simp: list_all_iff)
  from starIter_run [OF bsq, of "quoteChar # post" "length (bs @ quoteChar # post)" "[]"]
  obtain tl where star: "starIter (length (bs @ quoteChar # post)) (rmatch (RChar (\<lambda>c. c \<noteq> quoteChar)))
                      (bs @ quoteChar # post, []) = (quoteChar # post, []) # tl"
    by auto
  have plus: "rmatch (RPlus (RChar (\<lambda>c. c \<noteq> quoteChar))) (body @ quoteChar # post, [])
                = (quoteChar # post, []) # tl"
    using bq star
    by (simp del: rmatch.simps add: RPlus_def b rmatch_RSeq rmatch_RStar rmatch_RChar_Cons)
  have here: "\<exists>tl'. rmatch r (t, []) = (post, [(1, body)]) # tl'"
    unfolding r_def t_def
    by (simp del: rmatch.simps add: rmatch_RSeq rmatch_RGroup rmatch_RChar_Cons plus)
  have miss: "rmatch r (c # cs, []) = []" if "c \<noteq> quoteChar" for c cs
    using that unfolding r_def by (simp del: rmatch.simps add: rmatch_RSeq rmatch_RChar_Cons)
  have skip: "rfind r (pre @ t) = rfind r t" using pre
  proof (induction pre)
    case Nil
    show ?case by simp
  next
    case (Cons c pre)
    then have "c \<noteq> quoteChar" by auto
    from miss [OF this] Cons show ?case by simp
  qed
  from here obtain tl' where "rmatch r (t, []) = (post, [(1, body)]) # tl'" by blast
  then have "rfind r t = Some (quoteChar # body @ [quoteChar], [(1, body)])"
    by (simp add: t_def)
  with skip show ?thesis
    by (simp add: quotePattern_def regexpOf_def submatches_def r_def t_def)
qed

section \<open>The order of iteration\<close>

lemma getSynonyms_withOrder: "getSynonyms (withOrder p is es) = getSynonyms p"
  by (simp add: fun_eq_iff getSynonyms_def withOrder_def)

lemma keywordLoop_withOrder:
  "keywordLoop (withOrder p is es) kws t acc = keywordLoop p kws t acc"
  by (induction kws arbitrary: acc) (simp_all add: getSynonyms_withOrder)

lemma boostedScore_withOrder:
  "boostedScore (withOrder p is es) t n ip = boostedScore p t n ip"
proof -
  have "compiled (withOrder p is es) = compiled p" by (simp add: withOrder_def)
  then show ?thesis
    by (simp add: boostedScore_def calculateIntentScore_def keywordSignal_def
          keywordLoop_withOrder)
qed

lemma classifyLoop_withOrder:
  "classifyLoop (withOrder p is es) t xs best = classifyLoop p t xs best"
proof (induction xs arbitrary: best)
  case Nil
  show ?case by simp
next
  case (Cons x xs)
  obtain n ip where x: "x = (n, ip)" by (cases x)
  obtain bi bs where best: "best = (bi, bs)" by (cases best)
  show ?case by (simp add: x best boostedScore_withOrder Cons.IH Let_def)
qed

lemma thresholdOf_withOrder: "thresholdOf (withOrder p is es) n = thresholdOf p n"
  by (simp add: thresholdOf_def withOrder_def)

text \<open>The result of the loop, given the first of the best intents.\<close>

lemma classifyLoop_best:
  assumes "\<forall>e \<in> set pre. boostedScore p t (fst e) (snd e) < boostedScore p t n ip"
    and "\<forall>e \<in> set post. boostedScore p t (fst e) (snd e) \<le> boostedScore p t n ip"
  shows "classifyLoop p t (pre @ (n, ip) # post) (''UNKNOWN'', 0)
           = (if 0 < boostedScore p t n ip then (n, boostedScore p t n ip) else (''UNKNOWN'', 0))"
proof (cases "0 < boostedScore p t n ip")
  case True
  from classifyLoop_first_max [OF assms True] True show ?thesis by simp
next
  case False
  with assms have "\<forall>e \<in> set (pre @ (n, ip) # post). boostedScore p t (fst e) (snd e) \<le> 0"
    by fastforce
  from classifyLoop_no_improvement [OF this] False show ?thesis by simp
qed

lemma classifyIntent_order:
  assumes order: "Intents (config p) = pre @ (n, ip) # post"
    and before: "\<forall>e \<in> set pre. boostedScore p t (fst e) (snd e) < boostedScore p t n ip"
    and after: "\<forall>e \<in> set post. boostedScore p t (fst e) (snd e) < boostedScore p t n ip"
    and perm: "set is = set (Intents (config p))"
  shows "classifyIntent (withOrder p is es) t = classifyIntent p t"
proof -
  from after have after': "\<forall>e \<in> set post. boostedScore p t (fst e) (snd e) \<le> boostedScore p t n ip"
    by fastforce
  have "(n, ip) \<in> set is" using perm order by simp
  then obtain pre' post' where split: "is = pre' @ (n, ip) # post'" and first: "(n, ip) \<notin> set pre'"
    by (meson split_list_first)
  have low: "boostedScore p t (fst e) (snd e) \<le> boostedScore p t n ip" if "e \<in> set is" for e
    using that perm order before after by fastforce
  have strict: "boostedScore p t (fst e) (snd e) < boostedScore p t n ip"
    if "e \<in> set is" "e \<noteq> (n, ip)" for e
    using that perm order before after by fastforce
  have b': "\<forall>e \<in> set pre'. boostedScore p t (fst e) (snd e) < boostedScore p t n ip"
    using strict split first by fastforce
  have a': "\<forall>e \<in> set post'. boostedScore p t (fst e) (snd e) \<le> boostedScore p t n ip"
    using low split by fastforce
  have "classifyLoop p t is (''UNKNOWN'', 0) = classifyLoop p t (Intents (config p)) (''UNKNOWN'', 0)"
    by (simp only: split order classifyLoop_best [OF b' a'] classifyLoop_best [OF before after'])
  moreover have "Intents (config (withOrder p is es)) = is" by (simp add: withOrder_def)
  ultimately show ?thesis
    by (simp add: classifyIntent_def classifyLoop_withOrder thresholdOf_withOrder)
qed

lemma extractEntityByKeywords_any:
  "extractEntityByKeywords p' t k e = extractEntityByKeywords p t k e"
  by (simp add: extractEntityByKeywords_def)

lemma entityOutcome_withOrder:
  "entityOutcome (withOrder p is es) t k e cur = entityOutcome p t k e cur"
proof -
  have "compiled (withOrder p is es) = compiled p" by (simp add: withOrder_def)
  then show ?thesis
    by (simp add: entityOutcome_def Let_def
          extractEntityByKeywords_any [of "withOrder p is es" t k e p] cong: if_cong)
qed

lemma extractEntities_order:
  assumes "distinct (map fst (Entities (config p)))" "distinct (map fst es)"
    and "set es = set (Entities (config p))"
  shows "extractEntities (withOrder p is es) t = extractEntities p t"
proof
  fix k
  have es: "Entities (config (withOrder p is es)) = es" by (simp add: withOrder_def)
  from assms have "map_of es = map_of (Entities (config p))"
    by (simp add: map_of_inject_set)
  then show "extractEntities (withOrder p is es) t k = extractEntities p t k"
    using assms(1,2)
    by (simp add: extractEntities_lookup es entityOutcome_withOrder cong: option.case_cong)
qed

text \<open>
  Each of the three loops of \<open>extractEntities\<close> may visit the entities in an order of
  its own: the result is the same.
\<close>

lemma extractEntities_any_order:
  assumes keys: "distinct (map fst (Entities (config p)))"
    and "distinct (map fst es1)" "set es1 = set (Entities (config p))"
    and "distinct (map fst es2)" "set es2 = set (Entities (config p))"
    and "distinct (map fst es3)" "set es3 = set (Entities (config p))"
  shows "extractOtherLoop p t es3 (extractTitleLoop p t es2 (extractNameLoop p t es1 Map.empty))
           = extractEntities p t"
proof
  fix k
  from assms have "map_of es1 = map_of (Entities (config p))"
    "map_of es2 = map_of (Entities (config p))" "map_of es3 = map_of (Entities (config p))"
    by (simp_all add: map_of_inject_set)
  then show "extractOtherLoop p t es3
               (extractTitleLoop p t es2 (extractNameLoop p t es1 Map.empty)) k
             = extractEntities p t k"
    using assms(2,4,6)
    by (simp add: extractEntities_lookup [OF keys] extractNameLoop_lookup
          extractTitleLoop_lookup extractOtherLoop_lookup split: option.splits)
qed

lemma addMissing_order:
  assumes "distinct (map fst (Intents (config p)))" "distinct (map fst is)"
    and "set is = set (Intents (config p))"
  shows "addMissingFieldsAndFollowUp (withOrder p is es) r n = addMissingFieldsAndFollowUp p r n"
proof -
  have "Intents (config (withOrder p is es)) = is" by (simp add: withOrder_def)
  moreover from assms have "map_of is = map_of (Intents (config p))"
    by (simp add: map_of_inject_set)
  ultimately show ?thesis by (simp add: addMissingFieldsAndFollowUp_def)
qed

lemma Task_addMissing: "Task (addMissingFieldsAndFollowUp p r n) = Task r"
  by (simp add: addMissingFieldsAndFollowUp_def Let_def split: option.splits)

lemma Vars_addMissing: "Vars (addMissingFieldsAndFollowUp p r n) = Vars r"
  by (simp add: addMissingFieldsAndFollowUp_def Let_def split: option.splits)

lemma Task_ExtractIntent:
  "Task (ExtractIntent p text) = ResultIntent (classifyIntent p (normalizeText text))"
  by (simp add: ExtractIntent_def Let_def Task_addMissing)

text \<open>
  C2 (as amended). Take the intents and the entities of a provider in any other order
  (\<open>intents\<close>, \<open>entities\<close>), and let \<open>(n, ip)\<close> be the first intent, in the order
  of iteration, among those with the highest score after the boost. Then the task is
  \<open>n\<close> when its score is positive and reaches its threshold, and \<open>"UNKNOWN"\<close> otherwise:
  on a tie the intent seen first wins. When no other intent has the same score, the
  whole result of \<open>ExtractIntent\<close> is the same in every order of iteration.
\<close>

theorem ExtractIntent_iteration_order:
  assumes ikeys: "distinct (map fst (Intents (config p)))"
    and ikeys': "distinct (map fst intents)"
    and iperm: "set intents = set (Intents (config p))"
    and ekeys: "distinct (map fst (Entities (config p)))"
    and ekeys': "distinct (map fst entities)"
    and eperm: "set entities = set (Entities (config p))"
    and order: "Intents (config p) = pre @ (n, ip) # post"
    and before: "\<forall>e \<in> set pre. boostedScore p (normalizeText text) (fst e) (snd e)
                                   < boostedScore p (normalizeText text) n ip"
    and after: "\<forall>e \<in> set post. boostedScore p (normalizeText text) (fst e) (snd e)
                                   \<le> boostedScore p (normalizeText text) n ip"
  shows "Task (ExtractIntent p text)
           = (if 0 < boostedScore p (normalizeText text) n ip
                 \<and> thresholdOf p n \<le> boostedScore p (normalizeText text) n ip
              then n else ''UNKNOWN'')
         \<and> ((\<forall>e \<in> set post. boostedScore p (normalizeText text) (fst e) (snd e)
                                   < boostedScore p (normalizeText text) n ip)
              \<longrightarrow> ExtractIntent (withOrder p intents entities) text = ExtractIntent p text)"
proof
  show "Task (ExtractIntent p text)
           = (if 0 < boostedScore p (normalizeText text) n ip
                 \<and> thresholdOf p n \<le> boostedScore p (normalizeText text) n ip
              then n else ''UNKNOWN'')"
    by (simp add: Task_ExtractIntent classifyIntent_def order classifyLoop_best [OF before after])
next
  show "(\<forall>e \<in> set post. boostedScore p (normalizeText text) (fst e) (snd e)
                                   < boostedScore p (normalizeText text) n ip)
              \<longrightarrow> ExtractIntent (withOrder p intents entities) text = ExtractIntent p text"
  proof
    assume strict: "\<forall>e \<in> set post. boostedScore p (normalizeText text) (fst e) (snd e)
                                   < boostedScore p (normalizeText text) n ip"
    have c: "classifyIntent (withOrder p intents entities) (normalizeText text)
               = classifyIntent p (normalizeText text)"
      by (rule classifyIntent_order [OF order before strict iperm])
    have e: "extractEntities (withOrder p intents entities) text = extractEntities p text"
      by (rule extractEntities_order [OF ekeys ekeys' eperm])
    show "ExtractIntent (withOrder p intents entities) text = ExtractIntent p text"
      by (simp add: ExtractIntent_def Let_def c e addMissing_order [OF ikeys ikeys' iperm])
  qed
qed

theorem ExtractIntent_iteration_order_witness:
  "Task (ExtractIntent defaultProvider ''find contact Bob'') = ''FIND_CONTACT''
   \<and> ExtractIntent (withOrder defaultProvider (rev (Intents (config defaultProvider)))
                       (rev (Entities (config defaultProvider)))) ''find contact Bob''
       = ExtractIntent defaultProvider ''find contact Bob''"
proof -
  let ?p = defaultProvider
  let ?t = "''find contact Bob''"
  have order: "Intents (config ?p) = [(''CREATE_CONTACT'', createContactPattern)]
                 @ (''FIND_CONTACT'', findContactPattern) # []"
    by (simp add: defaultProvider_def GetDefaultConfig_def)
  have ikeys: "distinct (map fst (Intents (config ?p)))"
    by (simp add: defaultProvider_def GetDefaultConfig_def)
  have ekeys: "distinct (map fst (Entities (config ?p)))"
    by (simp add: defaultProvider_def GetDefaultConfig_def)
  have ikeys': "distinct (map fst (rev (Intents (config ?p))))"
    using ikeys by (simp add: rev_map [symmetric])
  have ekeys': "distinct (map fst (rev (Entities (config ?p))))"
    using ekeys by (simp add: rev_map [symmetric])
  have s1: "boostedScore ?p (normalizeText ?t) ''CREATE_CONTACT'' createContactPattern = 16 / 15"
    by code_simp
  have s2: "boostedScore ?p (normalizeText ?t) ''FIND_CONTACT'' findContactPattern = 175 / 110"
    by code_simp
  have th: "thresholdOf ?p ''FIND_CONTACT'' = 6 / 10"
    by code_simp
  have before: "\<forall>e \<in> set [(''CREATE_CONTACT'', createContactPattern)].
                  boostedScore ?p (normalizeText ?t) (fst e) (snd e)
                    < boostedScore ?p (normalizeText ?t) ''FIND_CONTACT'' findContactPattern"
    by (simp add: s1 s2)
  have after: "\<forall>e \<in> set []. boostedScore ?p (normalizeText ?t) (fst e) (snd e)
                    \<le> boostedScore ?p (normalizeText ?t) ''FIND_CONTACT'' findContactPattern"
    by simp
  from ExtractIntent_iteration_order [OF ikeys ikeys' _ ekeys ekeys' _ order before after]
  show ?thesis by (simp add: s2 th)
qed

text \<open>
  Two intents with the same score: the same configuration gives \<open>GREET\<close> when its map
  of intents is visited in one order and \<open>SALUTE\<close> in the other.
\<close>

theorem ExtractIntent_tie_counterexample:
  "set (Intents (config (withOrder tieProvider (rev (Intents (config tieProvider)))
                           (Entities (config tieProvider)))))
     = set (Intents (config tieProvider))
   \<and> Task (ExtractIntent tieProvider ''hello'') = ''GREET''
   \<and> Task (ExtractIntent (withOrder tieProvider (rev (Intents (config tieProvider)))
                             (Entities (config tieProvider))) ''hello'') = ''SALUTE''"
proof -
  have "Task (ExtractIntent tieProvider ''hello'') = ''GREET''" by code_simp
  moreover have "Task (ExtractIntent (withOrder tieProvider (rev (Intents (config tieProvider)))
                             (Entities (config tieProvider))) ''hello'') = ''SALUTE''"
    by code_simp
  ultimately show ?thesis by (simp add: withOrder_def)
qed

section \<open>The default configuration on concrete texts\<close>

text \<open>
  C1 (the code at the input of the claim). For \<open>"xyz zzz qqq"\<close> and the default
  configuration no signal fires, but the priority boost of \<open>CREATE_CONTACT\<close> alone is
  \<open>10 * 0.1 = 1\<close>, above its threshold 0.7: the result is \<open>CREATE_CONTACT\<close> with
  confidence 1, not \<open>"UNKNOWN"\<close> with 0. The map of entities is empty.
\<close>

theorem default_config_unmatched_text:
  "classifyIntent defaultProvider (normalizeText ''xyz zzz qqq'')
     = \<lparr> ResultIntent = ''CREATE_CONTACT'', ResultConfidence = 1 \<rparr>
   \<and> Task (ExtractIntent defaultProvider ''xyz zzz qqq'') = ''CREATE_CONTACT''
   \<and> Vars (ExtractIntent defaultProvider ''xyz zzz qqq'') ''confidence'' = Some (FloatValue 1)
   \<and> extractEntities defaultProvider ''xyz zzz qqq'' = Map.empty"
proof -
  have c: "classifyIntent defaultProvider (normalizeText ''xyz zzz qqq'')
     = \<lparr> ResultIntent = ''CREATE_CONTACT'', ResultConfidence = 1 \<rparr>"
    by code_simp
  have t: "Task (ExtractIntent defaultProvider ''xyz zzz qqq'') = ''CREATE_CONTACT''"
    by code_simp
  have v: "Vars (ExtractIntent defaultProvider ''xyz zzz qqq'') ''confidence'' = Some (FloatValue 1)"
    by code_simp
  have keys: "distinct (map fst (Entities (config defaultProvider)))"
    by (simp add: defaultProvider_def GetDefaultConfig_def)
  have o: "entityOutcome defaultProvider ''xyz zzz qqq'' ''name'' e None = None"
    "entityOutcome defaultProvider ''xyz zzz qqq'' ''email'' e None = None"
    "entityOutcome defaultProvider ''xyz zzz qqq'' ''phone'' e None = None" for e
    by code_simp+
  have ents: "Entities (config defaultProvider)
                = [(''name'', nameEntity), (''email'', emailEntity), (''phone'', phoneEntity)]"
    by (simp add: defaultProvider_def GetDefaultConfig_def)
  have "extractEntities defaultProvider ''xyz zzz qqq'' k = None" for k
    by (simp add: extractEntities_lookup [OF keys] ents o)
  then have e: "extractEntities defaultProvider ''xyz zzz qqq'' = Map.empty"
    by (simp add: fun_eq_iff)
  from c t v e show ?thesis by simp
qed

text \<open>
  C4 (the code at a failing input). The pattern for phone numbers of the default
  configuration matches \<open>555-123-4567\<close> with its only group, the optional country
  code, empty; no anchor word precedes the number, so the keyword strategy finds
  nothing either, and the key \<open>phone\<close> stays in the map with the empty string.
\<close>

theorem phone_without_country_code:
  "extractEntities defaultProvider ''call 555-123-4567'' ''phone'' = Some []
   \<and> Vars (ExtractIntent defaultProvider ''call 555-123-4567'') ''phone''
       = Some (StringValue [])"
proof -
  have "extractEntities defaultProvider ''call 555-123-4567'' ''phone'' = Some []"
    by code_simp
  moreover have "Vars (ExtractIntent defaultProvider ''call 555-123-4567'') ''phone''
       = Some (StringValue [])"
    by code_simp
  ultimately show ?thesis by simp
qed

section \<open>Names in double quotes\<close>

text \<open>
  What the loop over the patterns of an entity leaves in the entry: nothing new when
  no pattern matches with a capturing group, and otherwise the first group of the
  first pattern that does.
\<close>

lemma regexOutcome_no_match:
  "\<forall>re \<in> set res. length (FindStringSubmatch re text) \<le> 1 \<Longrightarrow>
   regexOutcome res text cur = cur"
  by (induction res) (auto simp: Let_def)

lemma regexOutcome_first_match:
  "\<forall>r \<in> set before. length (FindStringSubmatch r text) \<le> 1 \<Longrightarrow>
   1 < length (FindStringSubmatch re text) \<Longrightarrow>
   regexOutcome (before @ re # after) text cur = Some (FindStringSubmatch re text ! 1)"
  by (induction before) (auto simp: Let_def)

text \<open>
  C5 (as amended). Let a \<open>name\<close> entity be configured and let the first double quote
  of the text open a non-empty span that a second double quote closes. When none of
  the patterns of the entity matches the text with a capturing group, the extracted
  name is that span, whatever the anchor words of the text say. When \<open>re\<close> is the
  first pattern of the entity that matches with a capturing group, the extracted name
  is the first group of that match if the group is non-empty, and the span if the
  group is empty.
\<close>

theorem name_from_quoted_span:
  assumes ent: "map_of (Entities (config p)) ''name'' = Some e"
    and keys: "distinct (map fst (Entities (config p)))"
    and shape: "text = pre @ quoteChar # body @ quoteChar # post"
    and pre: "quoteChar \<notin> set pre" and body: "quoteChar \<notin> set body" and ne: "body \<noteq> []"
  shows "((\<forall>re \<in> set (lookupList (EntityRegexes (compiled p)) ''name'').
             length (FindStringSubmatch re text) \<le> 1)
          \<longrightarrow> extractEntities p text ''name'' = Some body)
         \<and> (\<forall>before re after.
               lookupList (EntityRegexes (compiled p)) ''name'' = before @ re # after
               \<and> (\<forall>r \<in> set before. length (FindStringSubmatch r text) \<le> 1)
               \<and> 1 < length (FindStringSubmatch re text)
               \<longrightarrow> extractEntities p text ''name''
                     = Some (if FindStringSubmatch re text ! 1 = [] then body
                             else FindStringSubmatch re text ! 1))"
proof -
  have kw: "extractEntityByKeywords p text ''name'' e = body"
    by (simp add: extractEntityByKeywords_def shape quotePattern_find [OF pre body ne])
  have name: "extractEntities p text ''name''
                = entityOutcome p text ''name'' e None"
    by (simp add: extractEntities_lookup [OF keys] ent)
  have none: "extractEntities p text ''name'' = Some body"
    if "\<forall>re \<in> set (lookupList (EntityRegexes (compiled p)) ''name'').
          length (FindStringSubmatch re text) \<le> 1"
    using regexOutcome_no_match [OF that, of None]
    by (simp add: name entityOutcome_def kw ne)
  have first: "extractEntities p text ''name''
                 = Some (if FindStringSubmatch re text ! 1 = [] then body
                         else FindStringSubmatch re text ! 1)"
    if "lookupList (EntityRegexes (compiled p)) ''name'' = before @ re # after"
      and "\<forall>r \<in> set before. length (FindStringSubmatch r text) \<le> 1"
      and "1 < length (FindStringSubmatch re text)"
    for before re after
    using regexOutcome_first_match [OF that(2,3), of after None]
    by (simp add: name entityOutcome_def kw ne that(1))
  from none first show ?thesis by blast
qed

theorem name_from_quoted_span_witness:
  "nameLoop (Fields (''contact Bob '' @ quoteChar # ''Alice Smith'' @ quoteChar # '' please''))
     = ''Bob''
   \<and> extractEntities greetProvider
        (''contact Bob '' @ quoteChar # ''Alice Smith'' @ quoteChar # '' please'') ''name''
       = Some ''Alice Smith''
   \<and> FindStringSubmatch (regexpOf 1 phoneRx) (''555-123-4567 '' @ quoteChar # ''Alice'' @ [quoteChar])
       = [''555-123-4567'', []]
   \<and> extractEntities phoneNameProvider
        (''555-123-4567 '' @ quoteChar # ''Alice'' @ [quoteChar]) ''name'' = Some ''Alice''
   \<and> FindStringSubmatch (regexpOf 1 nameRx) (''call Bob '' @ quoteChar # ''Alice'' @ [quoteChar])
       = [''call Bob'', ''Bob'']
   \<and> extractEntities defaultProvider
        (''call Bob '' @ quoteChar # ''Alice'' @ [quoteChar]) ''name'' = Some ''Bob''"
proof -
  let ?t1 = "''contact Bob '' @ quoteChar # ''Alice Smith'' @ quoteChar # '' please''"
  let ?t2 = "''555-123-4567 '' @ quoteChar # ''Alice'' @ [quoteChar]"
  let ?t3 = "''call Bob '' @ quoteChar # ''Alice'' @ [quoteChar]"
  have q: "quoteChar \<notin> set ''contact Bob ''" "quoteChar \<notin> set ''Alice Smith''"
    "quoteChar \<notin> set ''555-123-4567 ''" "quoteChar \<notin> set ''Alice''"
    "quoteChar \<notin> set ''call Bob ''"
    by (simp_all add: quoteChar_def)
  have anchor: "nameLoop (Fields ?t1) = ''Bob''" by code_simp
  have ent1: "map_of (Entities (config greetProvider)) ''name'' = Some (plainEntity ''name'')"
    and keys1: "distinct (map fst (Entities (config greetProvider)))"
    and regs1: "lookupList (EntityRegexes (compiled greetProvider)) ''name'' = []"
    by (simp_all add: greetProvider_def plainProvider_def noRegexCompiled_def lookupList_def)
  from name_from_quoted_span [OF ent1 keys1 refl q(1) q(2), of "'' please''"] regs1
  have r1: "extractEntities greetProvider ?t1 ''name'' = Some ''Alice Smith''" by simp
  have ent2: "map_of (Entities (config phoneNameProvider)) ''name''
                = Some ((plainEntity ''name'')\<lparr> EntityRegex := [phonePattern] \<rparr>)"
    and keys2: "distinct (map fst (Entities (config phoneNameProvider)))"
    and regs2: "lookupList (EntityRegexes (compiled phoneNameProvider)) ''name''
                  = [] @ regexpOf 1 phoneRx # []"
    by (simp_all add: phoneNameProvider_def noRegexCompiled_def lookupList_def)
  have m2: "FindStringSubmatch (regexpOf 1 phoneRx) ?t2 = [''555-123-4567'', []]"
    by code_simp
  from name_from_quoted_span [OF ent2 keys2 refl q(3) q(4), of "[]", THEN conjunct2,
         rule_format, of "[]" "regexpOf 1 phoneRx" "[]"] regs2 m2
  have r2: "extractEntities phoneNameProvider ?t2 ''name'' = Some ''Alice''" by simp
  have ent3: "map_of (Entities (config defaultProvider)) ''name'' = Some nameEntity"
    and keys3: "distinct (map fst (Entities (config defaultProvider)))"
    and regs3: "lookupList (EntityRegexes (compiled defaultProvider)) ''name''
                  = [] @ regexpOf 1 nameRx # []"
    by (simp_all add: defaultProvider_def GetDefaultConfig_def defaultCompiled_def lookupList_def)
  have m3: "FindStringSubmatch (regexpOf 1 nameRx) ?t3 = [''call Bob'', ''Bob'']"
    by code_simp
  from name_from_quoted_span [OF ent3 keys3 refl q(5) q(4), of "[]", THEN conjunct2,
         rule_format, of "[]" "regexpOf 1 nameRx" "[]"] regs3 m3
  have r3: "extractEntities defaultProvider ?t3 ''name'' = Some ''Bob''" by simp
  from anchor r1 m2 r2 m3 r3 show ?thesis by simp
qed

text \<open>
  With the default configuration the pattern of \<open>name\<close> is tried before the quotes:
  the name of \<open>named Bob "Alice"\<close> is \<open>Bob\<close>.
\<close>

theorem name_regex_before_quotes_counterexample:
  "extractEntities defaultProvider (''named Bob '' @ quoteChar # ''Alice'' @ [quoteChar]) ''name''
     = Some ''Bob''"
  by code_simp

section \<open>The keyword signal\<close>

lemma synonymLoop_any:
  "synonymLoop synonyms t
     = (if list_ex (\<lambda>synonym. Contains t (ToLower synonym)) synonyms then 0.3 else 0)"
  by (induction synonyms) simp_all

lemma keywordLoop_sum:
  "keywordLoop p kws t acc = acc + sum_list (map (keywordContribution p t) kws)"
  by (induction kws arbitrary: acc)
     (simp_all add: keywordContribution_def synonymLoop_any)

lemma map_of_mapSet: "map_of (mapSet m k v) = (map_of m)(k \<mapsto> v)"
proof
  fix x
  have "map_of (filter (\<lambda>e. fst e \<noteq> k) m) x = (if x = k then None else map_of m x)"
    by (induction m) auto
  then show "map_of (mapSet m k v) x = ((map_of m)(k \<mapsto> v)) x"
    by (auto simp: mapSet_def map_add_def split: option.splits)
qed

lemma compileIntents_KeywordMap:
  "compileIntents rc xs c0 = Inr c \<Longrightarrow> distinct (map fst xs) \<Longrightarrow>
   map_of (KeywordMap c) n
     = (case map_of xs n of Some ip \<Rightarrow> Some (Keywords ip) | None \<Rightarrow> map_of (KeywordMap c0) n)"
proof (induction xs arbitrary: c0)
  case Nil
  then show ?case by simp
next
  case (Cons x xs)
  obtain k i where x: "x = (k, i)" by (cases x)
  from Cons.prems(1) obtain regexes where
    rest: "compileIntents rc xs
             (c0\<lparr> IntentRegexes := mapSet (IntentRegexes c0) k regexes,
                  KeywordMap := mapSet (KeywordMap c0) k (Keywords i),
                  PhraseMap := mapSet (PhraseMap c0) k (Phrases i) \<rparr>) = Inr c"
    by (auto simp: x split: option.splits)
  from Cons.prems(2) have d: "distinct (map fst xs)" and "k \<notin> fst ` set xs" by (auto simp: x)
  then have none: "map_of xs k = None" by (simp add: map_of_eq_None_iff)
  from Cons.IH [OF rest d] none show ?case
    by (auto simp: x map_of_mapSet split: option.splits)
qed

lemma compileEntities_KeywordMap:
  "compileEntities rc xs c0 = Inr c \<Longrightarrow> KeywordMap c = KeywordMap c0"
proof (induction xs arbitrary: c0)
  case Nil
  then show ?case by simp
next
  case (Cons x xs)
  obtain k e where x: "x = (k, e)" by (cases x)
  from Cons.prems obtain regexes where
    "compileEntities rc xs (c0\<lparr> EntityRegexes := mapSet (EntityRegexes c0) k regexes \<rparr>) = Inr c"
    by (auto simp: x split: option.splits)
  from Cons.IH [OF this] show ?case by simp
qed

lemma compileConfig_KeywordMap:
  assumes "compileConfig rc cfg = Inr c" and "distinct (map fst (Intents cfg))"
    and "map_of (Intents cfg) n = Some ip"
  shows "lookupList (KeywordMap c) n = Keywords ip"
proof -
  let ?c0 = "\<lparr> IntentRegexes = [], EntityRegexes = [], KeywordMap = [], PhraseMap = [],
                SynonymMap = [] \<rparr>"
  from assms(1) obtain c1 c2 where c1: "compileIntents rc (Intents cfg) ?c0 = Inr c1"
    and c2: "compileEntities rc (Entities cfg) c1 = Inr c2"
    and c: "c = c2\<lparr> SynonymMap := buildSynonymMap (Synonyms cfg) (SynonymMap c2) \<rparr>"
    by (auto simp: compileConfig_def Let_def split: sum.splits)
  from compileIntents_KeywordMap [OF c1 assms(2), of n] assms(3)
  have "map_of (KeywordMap c1) n = Some (Keywords ip)" by simp
  with compileEntities_KeywordMap [OF c2] c show ?thesis by (simp add: lookupList_def)
qed

text \<open>
  C8. For an intent of a compiled configuration with at least one keyword, the keyword
  signal is the raw sum (0.4 for a keyword found in the lower-cased text, otherwise
  0.3 when one of the synonyms of the keyword is found; keywords and synonyms are
  compared in lower case) divided by the number of keywords configured for the
  intent, whatever the number of keywords that matched.
\<close>

theorem keywordSignal_normalised:
  assumes "compileConfig rc (config p) = Inr (compiled p)"
    and "distinct (map fst (Intents (config p)))"
    and "map_of (Intents (config p)) intentName = Some intent"
    and "Keywords intent \<noteq> []"
  shows "keywordSignal p (ToLower text) intentName
           = sum_list (map (keywordContribution p (ToLower text)) (Keywords intent))
               / real (length (Keywords intent))"
  using assms(4)
  by (simp add: keywordSignal_def Let_def compileConfig_KeywordMap [OF assms(1,2,3)]
        keywordLoop_sum)

lemma compile_default: "compileConfig defaultCompile GetDefaultConfig = Inr defaultCompiled"
  by (simp add: compileConfig_def GetDefaultConfig_def defaultCompiled_def defaultCompile_def
        createContactPattern_def findContactPattern_def nameEntity_def emailEntity_def
        phoneEntity_def mapSet_def namePattern_def emailPattern_def phonePattern_def)

theorem keywordSignal_normalised_witness:
  "keywordSignal defaultProvider (ToLower ''Add Bob'') ''CREATE_CONTACT'' = (0.3 + 0.4) / 4"
proof -
  have c: "compileConfig defaultCompile (config defaultProvider) = Inr (compiled defaultProvider)"
    by (simp add: defaultProvider_def compile_default)
  have d: "distinct (map fst (Intents (config defaultProvider)))"
    by (simp add: defaultProvider_def GetDefaultConfig_def)
  have m: "map_of (Intents (config defaultProvider)) ''CREATE_CONTACT'' = Some createContactPattern"
    by (simp add: defaultProvider_def GetDefaultConfig_def)
  have k: "Keywords createContactPattern \<noteq> []" by (simp add: createContactPattern_def)
  have s: "sum_list (map (keywordContribution defaultProvider (ToLower ''Add Bob''))
                      (Keywords createContactPattern)) = 0.3 + 0.4"
    by code_simp
  have l: "real (length (Keywords createContactPattern)) = 4"
    by (simp add: createContactPattern_def)
  from keywordSignal_normalised [OF c d m k, of "''Add Bob''"] s l show ?thesis by simp
qed

section \<open>The length bonus\<close>

text \<open>
  C6 (as amended). \<open>ExtractIntent\<close> classifies the normalized text, and the composite
  score of an intent is the sum of the four other signals plus 0.1 exactly when the
  normalized text is longer than 20 characters, and plus 0 otherwise.
\<close>

theorem lengthBonus_of_normalized_text:
  "Vars (ExtractIntent p text) ''confidence''
     = Some (FloatValue (ResultConfidence (classifyIntent p (normalizeText text))))
   \<and> calculateIntentScore p (normalizeText text) intentName intent
       = regexSignal (lookupList (IntentRegexes (compiled p)) intentName) (normalizeText text)
         + phraseSignal (lookupList (PhraseMap (compiled p)) intentName)
             (ToLower (normalizeText text))
         + keywordSignal p (ToLower (normalizeText text)) intentName
         + calculateWordOverlap (tokenize (normalizeText text)) (getIntentWords intent) * 0.2
         + (if 20 < length (normalizeText text) then 0.1 else 0)"
  by (simp add: ExtractIntent_def Let_def Vars_addMissing calculateIntentScore_def lengthBonus_def)

theorem lengthBonus_of_normalized_text_witness:
  "Vars (ExtractIntent greetProvider ''HELLO, and WELCOME to you!'') ''confidence''
     = Some (FloatValue 0.7)
   \<and> length (normalizeText ''HELLO, and WELCOME to you!'') = 24
   \<and> calculateIntentScore greetProvider (normalizeText ''HELLO, and WELCOME to you!'')
         ''GREET'' greetIntent = 0 + 0 + 0.4 + 1 * 0.2 + 0.1"
proof -
  have c: "ResultConfidence (classifyIntent greetProvider
             (normalizeText ''HELLO, and WELCOME to you!'')) = 0.7"
    by code_simp
  have l: "length (normalizeText ''HELLO, and WELCOME to you!'') = 24" by code_simp
  have s: "calculateIntentScore greetProvider (normalizeText ''HELLO, and WELCOME to you!'')
         ''GREET'' greetIntent = 0 + 0 + 0.4 + 1 * 0.2 + 0.1" by code_simp
  from lengthBonus_of_normalized_text [of greetProvider "''HELLO, and WELCOME to you!''"
         "''GREET''" greetIntent] c l s
  show ?thesis by simp
qed

text \<open>
  A raw text of 23 characters whose normalized form has 13: no bonus is added.
\<close>

theorem lengthBonus_raw_text_counterexample:
  "20 < length ''hello           welcome''
   \<and> lengthBonus (normalizeText ''hello           welcome'') = 0
   \<and> calculateIntentScore greetProvider (normalizeText ''hello           welcome'')
         ''GREET'' greetIntent = 0.4 + 0.2
   \<and> Vars (ExtractIntent greetProvider ''hello           welcome'') ''confidence''
       = Some (FloatValue 0.6)"
proof -
  have "lengthBonus (normalizeText ''hello           welcome'') = 0" by code_simp
  moreover have "calculateIntentScore greetProvider (normalizeText ''hello           welcome'')
         ''GREET'' greetIntent = 0.4 + 0.2" by code_simp
  moreover have "Vars (ExtractIntent greetProvider ''hello           welcome'') ''confidence''
       = Some (FloatValue 0.6)" by code_simp
  ultimately show ?thesis by simp
qed

section \<open>The variable confidence\<close>

lemma fieldMissing_confidence:
  "\<not> fieldMissing (m(''confidence'' \<mapsto> FloatValue c)) ''confidence''"
  by (simp add: fieldMissing_def)

text \<open>
  C10. The variable map of every result of \<open>ExtractIntent\<close> holds the confidence of
  the classification under the key \<open>confidence\<close>, whatever entity was extracted under
  that name, and \<open>confidence\<close> is never in the list of missing fields.
\<close>

theorem confidence_always_present:
  "Vars (ExtractIntent p text) ''confidence''
     = Some (FloatValue (ResultConfidence (classifyIntent p (normalizeText text))))
   \<and> ''confidence'' \<notin> set (Missing (ExtractIntent p text))"
  by (simp add: ExtractIntent_def Let_def Vars_addMissing addMissingFieldsAndFollowUp_def
        fieldMissing_def split: option.splits)

theorem confidence_always_present_witness:
  "extractEntities confidenceEntityProvider
     (''hello welcome '' @ quoteChar # ''high'' @ [quoteChar]) ''confidence'' = Some ''high''
   \<and> ''confidence'' \<in> set (Required greetIntent)
   \<and> Task (ExtractIntent confidenceEntityProvider
             (''hello welcome '' @ quoteChar # ''high'' @ [quoteChar])) = ''GREET''
   \<and> Vars (ExtractIntent confidenceEntityProvider
             (''hello welcome '' @ quoteChar # ''high'' @ [quoteChar])) ''confidence''
       = Some (FloatValue 0.6)
   \<and> Missing (ExtractIntent confidenceEntityProvider
             (''hello welcome '' @ quoteChar # ''high'' @ [quoteChar])) = [''name'']"
proof -
  let ?t = "''hello welcome '' @ quoteChar # ''high'' @ [quoteChar]"
  have e: "extractEntities confidenceEntityProvider ?t ''confidence'' = Some ''high''"
    by code_simp
  have r: "''confidence'' \<in> set (Required greetIntent)" by (simp add: greetIntent_def)
  have t: "Task (ExtractIntent confidenceEntityProvider ?t) = ''GREET''" by code_simp
  have c: "ResultConfidence (classifyIntent confidenceEntityProvider (normalizeText ?t)) = 0.6"
    by code_simp
  have m: "Missing (ExtractIntent confidenceEntityProvider ?t) = [''name'']" by code_simp
  from confidence_always_present [of confidenceEntityProvider ?t] e r t c m
  show ?thesis by simp
qed

section \<open>Missing fields\<close>

lemma customQuestion_find:
  "customQuestion questions field
     = find (\<lambda>question. Contains (ToLower question) (ToLower field)) questions"
  by (induction questions) simp_all

lemma Contains_Nil: "Contains [] sub \<Longrightarrow> sub = []"
  by simp

lemma customQuestion_nonempty:
  "customQuestion questions field = Some question \<Longrightarrow> field \<noteq> [] \<Longrightarrow> question \<noteq> []"
  by (induction questions) (auto simp: ToLower_def split: if_splits)

lemma defaultQuestion_nonempty: "defaultQuestion intentName field \<noteq> []"
  by (simp add: defaultQuestion_def)

lemma generateFollowUpQuestion_nonempty:
  "field \<noteq> [] \<Longrightarrow> generateFollowUpQuestion intentName field customFollowUp \<noteq> []"
  by (auto simp: generateFollowUpQuestion_def defaultQuestion_nonempty
        dest: customQuestion_nonempty split: option.splits)

text \<open>
  C9 (as amended). When \<open>ExtractIntent\<close> selects a configured intent other than
  \<open>"UNKNOWN"\<close>: the missing fields are the required fields that the variable map lacks
  or holds as the empty string; \<open>IsComplete\<close> holds exactly when no field is missing;
  the follow-up questions are the non-empty ones among the questions of the missing
  fields, the question of a field being the first custom question that contains the
  field's name (compared in lower case) or else the default question of the field;
  and the question of a missing field with a non-empty name is non-empty.
\<close>

theorem missing_fields_and_follow_up:
  assumes selected: "Task (ExtractIntent p text) \<noteq> ''UNKNOWN''"
    and pattern: "map_of (Intents (config p)) (Task (ExtractIntent p text)) = Some ip"
    and question: "question = (\<lambda>field.
                    case find (\<lambda>q. Contains (ToLower q) (ToLower field)) (FollowUp ip) of
                      Some q \<Rightarrow> q
                    | None \<Rightarrow> defaultQuestion (Task (ExtractIntent p text)) field)"
  shows "Missing (ExtractIntent p text)
           = filter (\<lambda>field. Vars (ExtractIntent p text) field = None
                            \<or> Vars (ExtractIntent p text) field = Some (StringValue []))
               (Required ip)
         \<and> IsComplete (ExtractIntent p text) = (Missing (ExtractIntent p text) = [])
         \<and> IntentFollowUp (ExtractIntent p text)
           = filter (\<lambda>q. q \<noteq> []) (map question (Missing (ExtractIntent p text)))
         \<and> (\<forall>field \<in> set (Missing (ExtractIntent p text)). field \<noteq> [] \<longrightarrow> question field \<noteq> [])"
proof -
  define ir where "ir = classifyIntent p (normalizeText text)"
  define r0 where "r0 = \<lparr> Task = ResultIntent ir,
       Vars = (\<lambda>entityType. map_option StringValue (extractEntities p text entityType))
                (''confidence'' \<mapsto> FloatValue (ResultConfidence ir)),
       IntentConfidence = 0, Missing = [], IntentFollowUp = [], IsComplete = False \<rparr>"
  have task: "Task (ExtractIntent p text) = ResultIntent ir"
    by (simp add: Task_ExtractIntent ir_def)
  with selected have sel: "ResultIntent ir \<noteq> ''UNKNOWN''" by simp
  then have r: "ExtractIntent p text = addMissingFieldsAndFollowUp p r0 (ResultIntent ir)"
    by (simp add: ExtractIntent_def Let_def ir_def r0_def)
  from pattern task have pat: "map_of (Intents (config p)) (ResultIntent ir) = Some ip" by simp
  have vars: "Vars (ExtractIntent p text) = Vars r0" by (simp add: r Vars_addMissing)
  have fm: "fieldMissing (Vars r0) = (\<lambda>field. Vars r0 field = None
                                         \<or> Vars r0 field = Some (StringValue []))"
    by (auto simp: fun_eq_iff fieldMissing_def split: option.splits)
  have gen: "(\<lambda>field. generateFollowUpQuestion (ResultIntent ir) field (FollowUp ip)) = question"
    by (simp add: fun_eq_iff generateFollowUpQuestion_def customQuestion_find task question
          cong: option.case_cong)
  have missing: "Missing (ExtractIntent p text) = filter (fieldMissing (Vars r0)) (Required ip)"
    by (simp add: r addMissingFieldsAndFollowUp_def pat Let_def)
  have complete: "IsComplete (ExtractIntent p text) = (Missing (ExtractIntent p text) = [])"
    by (simp add: r addMissingFieldsAndFollowUp_def pat Let_def)
  have follow: "IntentFollowUp (ExtractIntent p text)
                  = filter (\<lambda>q. q \<noteq> []) (map question (Missing (ExtractIntent p text)))"
    by (simp add: r addMissingFieldsAndFollowUp_def pat Let_def gen)
  have ne: "question field \<noteq> []" if "field \<noteq> []" for field
    using generateFollowUpQuestion_nonempty [OF that, of "ResultIntent ir" "FollowUp ip"]
    by (simp add: gen [symmetric])
  show ?thesis
    using missing complete follow ne by (simp add: fm vars)
qed

theorem missing_fields_and_follow_up_witness:
  "Task (ExtractIntent greetProvider ''Hello and welcome'') = ''GREET''
   \<and> Required greetIntent = [''name'', ''confidence'']
   \<and> Vars (ExtractIntent greetProvider ''Hello and welcome'') ''name'' = None
   \<and> Missing (ExtractIntent greetProvider ''Hello and welcome'') = [''name'']
   \<and> IntentFollowUp (ExtractIntent greetProvider ''Hello and welcome'')
       = [''Which NAME should I greet?'']
   \<and> IsComplete (ExtractIntent greetProvider ''Hello and welcome'') = False"
proof -
  let ?r = "ExtractIntent greetProvider ''Hello and welcome''"
  have task: "Task ?r = ''GREET''" by code_simp
  then have selected: "Task ?r \<noteq> ''UNKNOWN''" by simp
  have pattern: "map_of (Intents (config greetProvider)) (Task ?r) = Some greetIntent"
    unfolding task by (simp add: greetProvider_def plainProvider_def)
  have req: "Required greetIntent = [''name'', ''confidence'']" by (simp add: greetIntent_def)
  have v1: "Vars ?r ''name'' = None" by code_simp
  have v2: "Vars ?r ''confidence'' = Some (FloatValue 0.6)" by code_simp
  have f: "find (\<lambda>q. Contains (ToLower q) (ToLower ''name'')) (FollowUp greetIntent)
             = Some ''Which NAME should I greet?''"
    by code_simp
  from missing_fields_and_follow_up [OF selected pattern refl] task req v1 v2 f
  show ?thesis by simp
qed

text \<open>
  A required field with the empty name and an empty custom question: the field is
  missing and no follow-up question is produced for it.
\<close>

theorem empty_field_name_counterexample:
  "Task (ExtractIntent emptyFieldProvider ''hello'') = ''GREET''
   \<and> Required emptyFieldIntent = [[]]
   \<and> Missing (ExtractIntent emptyFieldProvider ''hello'') = [[]]
   \<and> IntentFollowUp (ExtractIntent emptyFieldProvider ''hello'') = []"
proof -
  have "Task (ExtractIntent emptyFieldProvider ''hello'') = ''GREET''" by code_simp
  moreover have "Missing (ExtractIntent emptyFieldProvider ''hello'') = [[]]" by code_simp
  moreover have "IntentFollowUp (ExtractIntent emptyFieldProvider ''hello'') = []" by code_simp
  ultimately show ?thesis by (simp add: emptyFieldIntent_def)
qed

section \<open>The default configuration and the threshold\<close>

lemma regexSignal_nonneg: "0 \<le> regexSignal res t"
  by (induction res) simp_all

lemma phraseSignal_nonneg: "0 \<le> phraseSignal phrases t"
  by (induction phrases) simp_all

lemma keywordContribution_nonneg: "0 \<le> keywordContribution p t k"
  by (simp add: keywordContribution_def)

lemma keywordSignal_nonneg: "0 \<le> keywordSignal p t n"
proof -
  have "0 \<le> sum_list (map (keywordContribution p t) kws)" for kws
    by (rule sum_list_nonneg) (auto simp: keywordContribution_nonneg)
  then show ?thesis by (simp add: keywordSignal_def Let_def keywordLoop_sum)
qed

lemma calculateIntentScore_nonneg: "0 \<le> calculateIntentScore p t n ip"
  by (simp add: calculateIntentScore_def Let_def regexSignal_nonneg phraseSignal_nonneg
        keywordSignal_nonneg calculateWordOverlap_def lengthBonus_def)

text \<open>
  With the default configuration the boost of \<open>CREATE_CONTACT\<close> alone reaches every
  threshold: no text is classified as \<open>"UNKNOWN"\<close>.
\<close>

lemma default_config_never_unknown:
  "ResultIntent (classifyIntent defaultProvider t) \<in> {''CREATE_CONTACT'', ''FIND_CONTACT''}"
proof -
  let ?p = defaultProvider
  define rest where "rest = [(''FIND_CONTACT'', findContactPattern)]"
  define s1 where "s1 = boostedScore ?p t ''CREATE_CONTACT'' createContactPattern"
  obtain bi bs where loop: "classifyLoop ?p t rest (''CREATE_CONTACT'', s1) = (bi, bs)"
    by (cases "classifyLoop ?p t rest (''CREATE_CONTACT'', s1)")
  have ints: "Intents (config ?p) = (''CREATE_CONTACT'', createContactPattern) # rest"
    by (simp add: defaultProvider_def GetDefaultConfig_def rest_def)
  have b1: "1 \<le> s1"
    using calculateIntentScore_nonneg [of ?p t "''CREATE_CONTACT''" createContactPattern]
    by (simp add: s1_def boostedScore_def createContactPattern_def)
  then have step: "classifyLoop ?p t (Intents (config ?p)) (''UNKNOWN'', 0) = (bi, bs)"
    by (simp add: ints Let_def s1_def [symmetric] loop)
  from classifyLoop_score_ge [of s1 ?p t rest "''CREATE_CONTACT''"] loop b1
  have bs: "1 \<le> bs" by simp
  from classifyLoop_name [of ?p t rest "''CREATE_CONTACT''" s1] loop
  have bi: "bi = ''CREATE_CONTACT'' \<or> bi = ''FIND_CONTACT''" by (auto simp: rest_def)
  have th: "thresholdOf ?p ''CREATE_CONTACT'' = 0.7" "thresholdOf ?p ''FIND_CONTACT'' = 0.6"
    by (simp_all add: thresholdOf_def defaultProvider_def GetDefaultConfig_def)
  from bi bs th have "\<not> bs < thresholdOf ?p bi" by auto
  with step bi show ?thesis by (auto simp: classifyIntent_def)
qed

end
